theory Spec2Isabelle
  imports Complex_Main
begin

section \<open>Numeric model\<close>

text \<open>
  The program computes with numpy \<^verbatim>\<open>float64\<close> and \<^verbatim>\<open>complex128\<close> arrays. A finite float is
  modelled as a \<^typ>\<open>real\<close> (rounding error is not modelled), a finite complex float as a
  \<^typ>\<open>complex\<close>. A float result that IEEE arithmetic makes non-finite (\<^verbatim>\<open>inf\<close> or \<^verbatim>\<open>nan\<close>:
  a division by zero, the square root of a negative number) is \<open>None\<close>; numpy raises nothing
  there. A one-dimensional array is a list. A Python exception is an \<open>Inl\<close> value.
\<close>

datatype error =
    ValueError
  | IndexError
  | UnboundLocalError
  | NonFinite
    \<comment> \<open>not a Python exception: an \<^verbatim>\<open>inf\<close> or \<^verbatim>\<open>nan\<close> reaches \<^verbatim>\<open>np.argmax\<close>, whose answer on
        such entries this model does not determine; the model stops there\<close>

text \<open>
  Elementwise binary operations of numpy on two one-dimensional arrays: the shapes must be
  equal, or one of them has length 1 and is stretched; anything else raises
  \<^verbatim>\<open>ValueError\<close> (operands could not be broadcast together).
\<close>

definition np_broadcast :: "('a \<Rightarrow> 'b \<Rightarrow> 'c) \<Rightarrow> 'a list \<Rightarrow> 'b list \<Rightarrow> error + 'c list" where
  "np_broadcast f xs ys =
     (if length xs = length ys then Inr (map2 f xs ys)
      else if length xs = 1 then Inr (map (f (hd xs)) ys)
      else if length ys = 1 then Inr (map (\<lambda>x. f x (hd ys)) xs)
      else Inl ValueError)"

text \<open>\<^verbatim>\<open>np.sum\<close>: 0 on the empty array, non-finite as soon as one entry is.\<close>

definition np_sum :: "('a::monoid_add) option list \<Rightarrow> 'a option" where
  "np_sum xs = map_option sum_list (those xs)"

text \<open>
  \<^verbatim>\<open>np.sinc\<close> is the normalised sinc. numpy replaces the argument 0 by \<^verbatim>\<open>1.0e-20\<close>, on which
  \<^verbatim>\<open>sin(y)/y\<close> is the float \<^verbatim>\<open>1.0\<close>.
\<close>

definition np_sinc :: "real \<Rightarrow> real" where
  "np_sinc x = (if x = 0 then 1 else sin (pi * x) / (pi * x))"

text \<open>\<^verbatim>\<open>np.round\<close> rounds to the nearest integer, a tie to the even neighbour.\<close>

definition np_round :: "real \<Rightarrow> real" where
  "np_round x =
     (let f = \<lfloor>x\<rfloor>; d = x - of_int f
      in if d < 1/2 then of_int f
         else if 1/2 < d then of_int (f + 1)
         else if even f then of_int f else of_int (f + 1))"

text \<open>
  \<^verbatim>\<open>np.argmax\<close> on an array of finite floats: the index of the first occurrence of the
  maximum; \<^verbatim>\<open>ValueError\<close> on an empty array. The scan keeps the running maximum \<open>mx\<close> and
  its index \<open>mi\<close>, and replaces them only by a strictly greater entry.
\<close>

fun argmax_scan :: "real list \<Rightarrow> nat \<Rightarrow> real \<Rightarrow> nat \<Rightarrow> nat" where
  "argmax_scan [] i mx mi = mi"
| "argmax_scan (x # xs) i mx mi =
     (if mx < x then argmax_scan xs (Suc i) x i else argmax_scan xs (Suc i) mx mi)"

definition np_argmax :: "real list \<Rightarrow> error + nat" where
  "np_argmax xs = (case xs of [] \<Rightarrow> Inl ValueError | x # rest \<Rightarrow> Inr (argmax_scan rest 1 x 0))"


section \<open>fringe\_functions.py: fringe intensity\<close>

text \<open>
  \<^verbatim>\<open>fringe_flux\<close> for one wavelength channel; on an array of wavelengths numpy applies it
  to each element. With \<open>lam = 0\<close> both quotients are \<^verbatim>\<open>inf\<close> or \<^verbatim>\<open>nan\<close>, \<^verbatim>\<open>np.sinc\<close> and
  \<^verbatim>\<open>np.cos\<close> of them are \<^verbatim>\<open>nan\<close>, and so is the product.
\<close>

definition fringe_flux ::
  "real \<Rightarrow> real \<Rightarrow> real \<Rightarrow> real \<Rightarrow> real \<Rightarrow> real \<Rightarrow> real \<Rightarrow> real \<Rightarrow> real option" where
  "fringe_flux x lam bandpass F_0 vis coh_phase disp_phase offset =
     (if lam = 0 then None
      else
        let envelope = np_sinc (x * bandpass / lam ^ 2);
            i = F_0 * (1 + envelope * vis * cos (2 * pi * x / lam - coh_phase
                                                 - disp_phase - offset))
        in Some i)"


section \<open>fringe\_functions.py: refractive index and dispersion\<close>

definition B1 :: real where "B1 = 1.03961212"
definition B2 :: real where "B2 = 0.231792344"
definition B3 :: real where "B3 = 1.01046945"
definition C1 :: real where "C1 = 6.00069867 / 1000"
definition C2 :: real where "C2 = 2.00179144 / 100"
definition C3 :: real where "C3 = 103.560653"

text \<open>
  \<^verbatim>\<open>sellmeier_equation\<close>. A vanishing denominator makes its term \<^verbatim>\<open>inf\<close> and so the index;
  \<^verbatim>\<open>np.sqrt\<close> of a negative number is \<^verbatim>\<open>nan\<close>.
\<close>

definition sellmeier_equation :: "real \<Rightarrow> real option" where
  "sellmeier_equation lam =
     (if C1 ^ 2 - lam ^ 2 = 0 \<or> C2 ^ 2 - lam ^ 2 = 0 \<or> C3 ^ 2 - lam ^ 2 = 0 then None
      else
        let n2 = 1 + B1 * lam ^ 2 / (C1 ^ 2 - lam ^ 2) +
                     B2 * lam ^ 2 / (C2 ^ 2 - lam ^ 2) +
                     B3 * lam ^ 2 / (C3 ^ 2 - lam ^ 2)
        in if n2 < 0 then None else Some (sqrt n2))"

text \<open>
  \<^verbatim>\<open>calc_group_index\<close>. When \<^verbatim>\<open>sellmeier_equation\<close> is finite the three denominators are
  non-zero, so the only further division by zero is by \<open>n = 0\<close>.
\<close>

definition calc_group_index :: "real \<Rightarrow> real option" where
  "calc_group_index lam =
     (case sellmeier_equation lam of
        None \<Rightarrow> None
      | Some n \<Rightarrow>
          if n = 0 then None
          else
            let a1 = B1 * lam ^ 2 / (C1 ^ 2 - lam ^ 2) ^ 2;
                a2 = B1 / (C1 ^ 2 - lam ^ 2);
                a3 = B2 * lam ^ 2 / (C2 ^ 2 - lam ^ 2) ^ 2;
                a4 = B2 / (C2 ^ 2 - lam ^ 2);
                a5 = B3 * lam ^ 2 / (C3 ^ 2 - lam ^ 2) ^ 2;
                a6 = B3 / (C3 ^ 2 - lam ^ 2);
                adjustment_factor = lam ^ 2 * (a1 + a2 + a3 + a4 + a5 + a6) / n
            in Some (n - adjustment_factor))"

text \<open>
  \<^verbatim>\<open>phaseshift_glass\<close> for one wavelength; the glass length is \<open>len\<close>. The subtraction
  \<open>n - n_grp\<close> is exact here; in \<^verbatim>\<open>float64\<close> two indices closer than the spacing of floats
  give 0.
\<close>

definition phaseshift_glass :: "real \<Rightarrow> real \<Rightarrow> real \<Rightarrow> real option" where
  "phaseshift_glass lam len lam_0 =
     (case sellmeier_equation lam of
        None \<Rightarrow> None
      | Some n \<Rightarrow>
          (case calc_group_index lam_0 of
             None \<Rightarrow> None
           | Some n_grp \<Rightarrow>
               if lam = 0 then None
               else
                 let OPD = (n - n_grp) * len;
                     phase_shift = OPD * 2 * pi / lam
                 in Some phase_shift))"


section \<open>fringe\_functions.py: tricoupler delay estimate\<close>

text \<open>
  \<^verbatim>\<open>find_delay\<close>: \<^verbatim>\<open>trial_delays[np.argmax(delay_envelope)]\<close>, on an envelope of finite
  values. Indexing a numpy array out of range raises \<^verbatim>\<open>IndexError\<close>.
\<close>

definition find_delay :: "real list \<Rightarrow> real list \<Rightarrow> error + real" where
  "find_delay delay_envelope trial_delays =
     (case np_argmax delay_envelope of
        Inl e \<Rightarrow> Inl e
      | Inr i \<Rightarrow> if i < length trial_delays then Inr (trial_delays ! i) else Inl IndexError)"


section \<open>fringe\_functions.py: AC coupler delay estimate\<close>

text \<open>
  The model value of one channel in \<^verbatim>\<open>calc_chi_2_AC\<close>:
  \<^verbatim>\<open>np.cos(2*np.pi*delay/wavelengths - phaseshift_glass(wavelengths,length,lam_0))\<close>.
\<close>

definition chi_model :: "real \<Rightarrow> real \<Rightarrow> real \<Rightarrow> real \<Rightarrow> real option" where
  "chi_model delay lam len lam_0 =
     (case phaseshift_glass lam len lam_0 of
        None \<Rightarrow> None
      | Some ps \<Rightarrow> if lam = 0 then None else Some (cos (2 * pi * delay / lam - ps)))"

definition calc_chi_2_AC ::
  "real list \<Rightarrow> real \<Rightarrow> real list \<Rightarrow> real \<Rightarrow> real \<Rightarrow> error + real option" where
  "calc_chi_2_AC gamma_r delay wavelengths len lam_0 =
     (case np_broadcast (\<lambda>m g. map_option (\<lambda>v. (v - g) ^ 2) m)
             (map (\<lambda>lam. chi_model delay lam len lam_0) wavelengths) gamma_r of
        Inl e \<Rightarrow> Inl e
      | Inr chi_lam \<Rightarrow> Inr (np_sum chi_lam))"

text \<open>
  The comparison \<^verbatim>\<open>chi_2 < chi_2_min\<close>; it is false when \<^verbatim>\<open>chi_2\<close> is \<^verbatim>\<open>nan\<close> or \<^verbatim>\<open>+inf\<close>
  (a sum of squares is never \<^verbatim>\<open>-inf\<close>).
\<close>

definition chi_less :: "real option \<Rightarrow> real \<Rightarrow> bool" where
  "chi_less chi_2 chi_2_min = (case chi_2 of None \<Rightarrow> False | Some c \<Rightarrow> c < chi_2_min)"

text \<open>
  The scan of \<^verbatim>\<open>find_delay_AC\<close> with \<^verbatim>\<open>plot=False\<close>. The loop state is \<^verbatim>\<open>chi_2_min\<close> and
  \<^verbatim>\<open>delay_min\<close>; \<^verbatim>\<open>delay_min\<close> is \<open>None\<close> while the variable is unbound.
\<close>

fun scan_AC ::
  "real list \<Rightarrow> real list \<Rightarrow> real \<Rightarrow> real \<Rightarrow> real list \<Rightarrow> real \<times> real option
     \<Rightarrow> error + (real \<times> real option)" where
  "scan_AC gamma_r wavelengths len lam_0 [] st = Inr st"
| "scan_AC gamma_r wavelengths len lam_0 (delay # rest) (chi_2_min, delay_min) =
     (case calc_chi_2_AC gamma_r delay wavelengths len lam_0 of
        Inl e \<Rightarrow> Inl e
      | Inr chi_2 \<Rightarrow>
          if chi_less chi_2 chi_2_min
          then scan_AC gamma_r wavelengths len lam_0 rest (the chi_2, Some delay)
          else scan_AC gamma_r wavelengths len lam_0 rest (chi_2_min, delay_min))"

text \<open>The scan with \<^verbatim>\<open>plot=True\<close>, which also appends every \<^verbatim>\<open>chi_2\<close> to \<^verbatim>\<open>chi_2_plot_array\<close>.\<close>

fun scan_AC_plot ::
  "real list \<Rightarrow> real list \<Rightarrow> real \<Rightarrow> real \<Rightarrow> real list
     \<Rightarrow> (real \<times> real option) \<times> real option list
     \<Rightarrow> error + ((real \<times> real option) \<times> real option list)" where
  "scan_AC_plot gamma_r wavelengths len lam_0 [] st = Inr st"
| "scan_AC_plot gamma_r wavelengths len lam_0 (delay # rest)
       ((chi_2_min, delay_min), chi_2_plot_array) =
     (case calc_chi_2_AC gamma_r delay wavelengths len lam_0 of
        Inl e \<Rightarrow> Inl e
      | Inr chi_2 \<Rightarrow>
          if chi_less chi_2 chi_2_min
          then scan_AC_plot gamma_r wavelengths len lam_0 rest
                 ((the chi_2, Some delay), chi_2_plot_array @ [chi_2])
          else scan_AC_plot gamma_r wavelengths len lam_0 rest
                 ((chi_2_min, delay_min), chi_2_plot_array @ [chi_2]))"

text \<open>\<^verbatim>\<open>return delay_min\<close> raises \<^verbatim>\<open>UnboundLocalError\<close> when no assignment was made.\<close>

definition return_delay_min :: "real option \<Rightarrow> error + real" where
  "return_delay_min delay_min =
     (case delay_min of None \<Rightarrow> Inl UnboundLocalError | Some d \<Rightarrow> Inr d)"

text \<open>
  \<^verbatim>\<open>find_delay_AC\<close>. The first component lists the calls of \<^verbatim>\<open>plt.plot\<close> (x data, y data)
  made before the function returns or raises, the second is the returned delay or the
  exception.
\<close>

definition find_delay_AC ::
  "real list \<Rightarrow> real list \<Rightarrow> real list \<Rightarrow> real \<Rightarrow> real \<Rightarrow> bool
     \<Rightarrow> (real list \<times> real option list) list \<times> (error + real)" where
  "find_delay_AC gamma_r trial_delays wavelengths len lam_0 plot =
     (let chi_2_min = 10 ^ 10
      in if plot then
           (case scan_AC_plot gamma_r wavelengths len lam_0 trial_delays
                   ((chi_2_min, None), []) of
              Inl e \<Rightarrow> ([], Inl e)
            | Inr ((chi_2_min', delay_min), chi_2_plot_array) \<Rightarrow>
                ([(trial_delays, chi_2_plot_array)], return_delay_min delay_min))
         else
           (case scan_AC gamma_r wavelengths len lam_0 trial_delays (chi_2_min, None) of
              Inl e \<Rightarrow> ([], Inl e)
            | Inr (chi_2_min', delay_min) \<Rightarrow> ([], return_delay_min delay_min)))"


section \<open>Random source\<close>

text \<open>
  The program draws from numpy's process-wide generator. Here the generator is a state of
  any type \<open>'g\<close>, and the three samplers the program calls take the state and return the
  draw with the next state: one Poisson draw of a given mean, one Gaussian draw of mean 0
  and a given scale, one uniform draw (\<^verbatim>\<open>np.random.random_sample()\<close>).
\<close>

record 'g rng =
  poisson :: "real \<Rightarrow> 'g \<Rightarrow> nat \<times> 'g"
  normal :: "real \<Rightarrow> 'g \<Rightarrow> real \<times> 'g"
  random_sample :: "'g \<Rightarrow> real \<times> 'g"

fun draw_poisson :: "'g rng \<Rightarrow> real list \<Rightarrow> 'g \<Rightarrow> nat list \<times> 'g" where
  "draw_poisson R [] g = ([], g)"
| "draw_poisson R (l # ls) g =
     (case poisson R l g of (k, g1) \<Rightarrow>
        (case draw_poisson R ls g1 of (ks, g2) \<Rightarrow> (k # ks, g2)))"

text \<open>
  \<^verbatim>\<open>np.random.poisson\<close> on an array of means: one draw per entry; \<^verbatim>\<open>ValueError\<close> before any
  draw when a mean is negative or not finite. (numpy's upper limit on the mean, near
  \<open>10\<^sup>1\<^sup>9\<close>, is not modelled.)
\<close>

definition np_random_poisson :: "'g rng \<Rightarrow> real option list \<Rightarrow> 'g \<Rightarrow> error + (nat list \<times> 'g)" where
  "np_random_poisson R lam g =
     (case those lam of
        None \<Rightarrow> Inl ValueError
      | Some ls \<Rightarrow> if \<exists>l \<in> set ls. l < 0 then Inl ValueError else Inr (draw_poisson R ls g))"


section \<open>fringe\_functions.py: combiner simulators\<close>

text \<open>
  The argument of \<^verbatim>\<open>np.round\<close> in the loop body of both simulators,
  \<^verbatim>\<open>shot_noise + np.random.normal(scale=1.6)\<close>: the call of \<^verbatim>\<open>np.random.normal\<close> has no
  \<^verbatim>\<open>size\<close>, so it is one draw, added to every entry of \<^verbatim>\<open>shot_noise\<close>.
\<close>

definition add_read_noise :: "'g rng \<Rightarrow> nat list \<Rightarrow> 'g \<Rightarrow> real list \<times> 'g" where
  "add_read_noise R shot_noise g =
     (case normal R 1.6 g of (read_noise, g') \<Rightarrow> (map (\<lambda>s. real s + read_noise) shot_noise, g'))"

text \<open>The loop body: from the noiseless \<^verbatim>\<open>flux\<close> of one output to its row of \<^verbatim>\<open>fluxes\<close>.\<close>

definition noisy_output :: "'g rng \<Rightarrow> real option list \<Rightarrow> 'g \<Rightarrow> error + (real list \<times> 'g)" where
  "noisy_output R flux g =
     (case np_random_poisson R flux g of
        Inl e \<Rightarrow> Inl e
      | Inr (shot_noise, g1) \<Rightarrow>
          (case add_read_noise R shot_noise g1 of (pre, g2) \<Rightarrow> Inr (map np_round pre, g2)))"

text \<open>
  The \<^verbatim>\<open>for output_offset in ...\<close> loop of both simulators; \<open>model\<close> gives the noiseless
  flux of every channel at an output offset. The result is the array \<^verbatim>\<open>fluxes\<close>, one row
  per output.
\<close>

fun output_loop ::
  "'g rng \<Rightarrow> (real \<Rightarrow> real option list) \<Rightarrow> real list \<Rightarrow> 'g \<Rightarrow> error + (real list list \<times> 'g)" where
  "output_loop R model [] g = Inr ([], g)"
| "output_loop R model (output_offset # rest) g =
     (case noisy_output R (model output_offset) g of
        Inl e \<Rightarrow> Inl e
      | Inr (row, g1) \<Rightarrow>
          (case output_loop R model rest g1 of
             Inl e \<Rightarrow> Inl e
           | Inr (rows, g2) \<Rightarrow> Inr (row # rows, g2)))"

text \<open>The array \<^verbatim>\<open>fluxes\<close> of \<^verbatim>\<open>cal_coherence\<close> (its lines up to the end of the loop).\<close>

definition tricoupler_fluxes ::
  "'g rng \<Rightarrow> 'g \<Rightarrow> real \<Rightarrow> real \<Rightarrow> real list \<Rightarrow> real \<Rightarrow> real \<times> real \<times> real
     \<Rightarrow> error + (real list list \<times> 'g)" where
  "tricoupler_fluxes R g delay_bad delay_fix wavelengths bandpass true_params =
     (case true_params of (F_0, vis, coh_phase) \<Rightarrow>
        let eff_delay = delay_bad - delay_fix
        in output_loop R
             (\<lambda>output_offset.
                map (\<lambda>lam. fringe_flux eff_delay lam bandpass F_0 vis coh_phase 0 output_offset)
                  wavelengths)
             (map (\<lambda>k. 2 * pi / 3 * k) [0, 1, 2]) g)"

text \<open>
  The last statement of \<^verbatim>\<open>cal_coherence\<close>, channel by channel:
  \<^verbatim>\<open>(3*fluxes[0] + np.sqrt(3)*1j*(fluxes[2]-fluxes[1]))/np.sum(fluxes,axis=0)-1\<close>.
  A channel whose three fluxes sum to 0 gets a non-finite value.
\<close>

definition combine_outputs :: "real list list \<Rightarrow> nat \<Rightarrow> complex option list" where
  "combine_outputs fluxes n =
     map (\<lambda>k. let total = fluxes ! 0 ! k + fluxes ! 1 ! k + fluxes ! 2 ! k
               in if total = 0 then None
                  else Some ((3 * complex_of_real (fluxes ! 0 ! k)
                              + complex_of_real (sqrt 3) * \<i>
                                * complex_of_real (fluxes ! 2 ! k - fluxes ! 1 ! k))
                             / complex_of_real total - 1))
       [0 ..< n]"

definition cal_coherence ::
  "'g rng \<Rightarrow> 'g \<Rightarrow> real \<Rightarrow> real \<Rightarrow> real list \<Rightarrow> real \<Rightarrow> real \<times> real \<times> real
     \<Rightarrow> error + (complex option list \<times> 'g)" where
  "cal_coherence R g delay_bad delay_fix wavelengths bandpass true_params =
     (case tricoupler_fluxes R g delay_bad delay_fix wavelengths bandpass true_params of
        Inl e \<Rightarrow> Inl e
      | Inr (fluxes, g') \<Rightarrow> Inr (combine_outputs fluxes (length wavelengths), g'))"

definition cal_AC_output ::
  "'g rng \<Rightarrow> 'g \<Rightarrow> real \<Rightarrow> real \<Rightarrow> real list \<Rightarrow> real \<Rightarrow> real \<Rightarrow> real \<Rightarrow> real \<times> real \<times> real
     \<Rightarrow> error + (real list list \<times> 'g)" where
  "cal_AC_output R g delay_bad delay_fix wavelengths bandpass len lam_0 true_params =
     (case true_params of (F_0, vis, coh_phase) \<Rightarrow>
        let eff_delay = delay_bad - delay_fix
        in output_loop R
             (\<lambda>output_offset.
                map (\<lambda>lam. case phaseshift_glass lam len lam_0 of
                              None \<Rightarrow> None
                            | Some disp_phase \<Rightarrow>
                                fringe_flux eff_delay lam bandpass F_0 vis coh_phase disp_phase
                                  output_offset)
                  wavelengths)
             (map (\<lambda>k. pi * k) [0, 1]) g)"


section \<open>fringe\_functions.py: group delay envelope\<close>

text \<open>Product of two floats of which either may be non-finite.\<close>

definition fmul :: "complex option \<Rightarrow> complex option \<Rightarrow> complex option" where
  "fmul x y = (case x of None \<Rightarrow> None | Some u \<Rightarrow> (case y of None \<Rightarrow> None | Some v \<Rightarrow> Some (u * v)))"

text \<open>
  \<^verbatim>\<open>find_white_fringe\<close>. A zero wavelength makes the phasor non-finite; \<^verbatim>\<open>gamma\<close> times the
  rotations is an elementwise product with broadcasting.
\<close>

definition find_white_fringe ::
  "complex option list \<Rightarrow> real \<Rightarrow> real list \<Rightarrow> error + real option" where
  "find_white_fringe gamma delay wavelengths =
     (case np_broadcast fmul gamma
             (map (\<lambda>lam. if lam = 0 then None
                         else Some (exp (\<i> * 2 * complex_of_real pi / complex_of_real lam
                                          * complex_of_real delay)))
                wavelengths) of
        Inl e \<Rightarrow> Inl e
      | Inr phasors \<Rightarrow> Inr (map_option (\<lambda>s. (cmod s) ^ 2) (np_sum phasors)))"

fun envelope_loop :: "complex option list \<Rightarrow> real list \<Rightarrow> real list \<Rightarrow> error + real option list" where
  "envelope_loop gamma wavelengths [] = Inr []"
| "envelope_loop gamma wavelengths (delay # rest) =
     (case find_white_fringe gamma delay wavelengths of
        Inl e \<Rightarrow> Inl e
      | Inr F \<Rightarrow>
          (case envelope_loop gamma wavelengths rest of
             Inl e \<Rightarrow> Inl e
           | Inr F_array \<Rightarrow> Inr (F # F_array)))"

text \<open>
  \<^verbatim>\<open>group_delay_envelope\<close>; as for \<^verbatim>\<open>find_delay_AC\<close> the first component lists the calls of
  \<^verbatim>\<open>plt.plot\<close>.
\<close>

definition group_delay_envelope ::
  "complex option list \<Rightarrow> real list \<Rightarrow> real list \<Rightarrow> bool
     \<Rightarrow> (real list \<times> real option list) list \<times> (error + real option list)" where
  "group_delay_envelope gamma trial_delays wavelengths plot =
     (case envelope_loop gamma wavelengths trial_delays of
        Inl e \<Rightarrow> ([], Inl e)
      | Inr F_array \<Rightarrow> (if plot then [(trial_delays, F_array)] else [], Inr F_array))"


section \<open>group\_delay\_sim\_loop.py: the tracking loop\<close>

text \<open>
  The module-level constants the loop reads. The script fixes them
  (\<^verbatim>\<open>num_group_delay_frames = int(incoh_int_time/coh_int_time)\<close>, which is 18,
  \<^verbatim>\<open>n_iter = 100\<close>, 199 trial delays, ...); the model keeps them as parameters.
  \<open>cfg_bias_vis\<close> is the median that the first loop of the script computes.
\<close>

record config =
  cfg_wavelengths :: "real list"
  cfg_bandpass :: real
  cfg_true_params :: "real \<times> real \<times> real"
  cfg_trial_delays :: "real list"
  cfg_a :: real
  cfg_error_rms :: real
  cfg_num_group_delay_frames :: int
  cfg_bias_vis :: real
  cfg_n_iter :: nat

text \<open>The variables that the loop carries from frame to frame.\<close>

record state =
  ave_delay_envelope :: "real option list"
  fix_delay :: real
  vis_array :: "real option list"
  frame_num :: int

text \<open>\<^verbatim>\<open>a*delay_envelope + (1-a)*ave_delay_envelope\<close> on one pair of entries.\<close>

definition mix :: "real \<Rightarrow> real option \<Rightarrow> real option \<Rightarrow> real option" where
  "mix a x y =
     (case x of None \<Rightarrow> None
      | Some u \<Rightarrow> (case y of None \<Rightarrow> None | Some v \<Rightarrow> Some (a * u + (1 - a) * v)))"

text \<open>
  \<^verbatim>\<open>gamma/np.sinc(fix_delay*bandpass/wavelengths**2)*np.exp(-1j*2*np.pi*fix_delay/wavelengths)\<close>:
  two elementwise operations with broadcasting. A division by a zero of the sinc is
  non-finite.
\<close>

definition fdiv :: "complex option \<Rightarrow> real option \<Rightarrow> complex option" where
  "fdiv x y =
     (case x of None \<Rightarrow> None
      | Some u \<Rightarrow> (case y of None \<Rightarrow> None
                  | Some v \<Rightarrow> if v = 0 then None else Some (u / complex_of_real v)))"

definition correct_gamma ::
  "complex option list \<Rightarrow> real \<Rightarrow> real \<Rightarrow> real list \<Rightarrow> error + complex option list" where
  "correct_gamma gamma fix bandpass wavelengths =
     (case np_broadcast fdiv gamma
             (map (\<lambda>lam. if lam = 0 then None else Some (np_sinc (fix * bandpass / lam ^ 2)))
                wavelengths) of
        Inl e \<Rightarrow> Inl e
      | Inr q \<Rightarrow>
          np_broadcast fmul q
            (map (\<lambda>lam. if lam = 0 then None
                        else Some (exp (- \<i> * 2 * complex_of_real pi * complex_of_real fix
                                         / complex_of_real lam)))
               wavelengths))"

text \<open>\<^verbatim>\<open>np.mean(np.abs(new_gamma)**2)-bias_vis\<close>; the mean of an empty array is \<^verbatim>\<open>nan\<close>.\<close>

definition vis_estimate :: "complex option list \<Rightarrow> real \<Rightarrow> real option" where
  "vis_estimate new_gamma bias =
     (if new_gamma = [] then None
      else map_option (\<lambda>s. s / real (length new_gamma) - bias)
             (np_sum (map (map_option (\<lambda>z. (cmod z) ^ 2)) new_gamma)))"

text \<open>
  One pass through the body of the second loop of the script. The calls of \<^verbatim>\<open>time.time\<close>
  and \<^verbatim>\<open>print\<close> are left out. The loop calls \<^verbatim>\<open>cal_coherence\<close> with \<^verbatim>\<open>delay_fix = 0\<close>.
\<close>

definition track_frame :: "'g rng \<Rightarrow> config \<Rightarrow> state \<times> 'g \<Rightarrow> error + (state \<times> 'g)" where
  "track_frame R cfg sg =
     (case sg of (s, g) \<Rightarrow>
      (case random_sample R g of (u, g1) \<Rightarrow>
       let bad_delay = 2 * cfg_error_rms cfg * u - cfg_error_rms cfg
       in (case cal_coherence R g1 bad_delay 0 (cfg_wavelengths cfg) (cfg_bandpass cfg)
                  (cfg_true_params cfg) of
             Inl e \<Rightarrow> Inl e
           | Inr (gamma, g2) \<Rightarrow>
          (case snd (group_delay_envelope gamma (cfg_trial_delays cfg) (cfg_wavelengths cfg)
                       False) of
             Inl e \<Rightarrow> Inl e
           | Inr delay_envelope \<Rightarrow>
          (case np_broadcast (mix (cfg_a cfg)) delay_envelope (ave_delay_envelope s) of
             Inl e \<Rightarrow> Inl e
           | Inr ave \<Rightarrow>
               if frame_num s < cfg_num_group_delay_frames cfg then
                 (case those ave of
                    None \<Rightarrow> Inl NonFinite
                  | Some ave_finite \<Rightarrow>
                 (case find_delay ave_finite (cfg_trial_delays cfg) of
                    Inl e \<Rightarrow> Inl e
                  | Inr fix \<Rightarrow>
                 (case correct_gamma gamma fix (cfg_bandpass cfg) (cfg_wavelengths cfg) of
                    Inl e \<Rightarrow> Inl e
                  | Inr new_gamma \<Rightarrow>
                      Inr (\<lparr>ave_delay_envelope = ave,
                            fix_delay = fix,
                            vis_array = vis_array s @ [vis_estimate new_gamma (cfg_bias_vis cfg)],
                            frame_num = frame_num s + 1\<rparr>, g2))))
               else
                 Inr (s\<lparr>ave_delay_envelope := ave, frame_num := frame_num s + 1\<rparr>, g2))))))"

text \<open>\<open>k\<close> passes through the loop body; an exception ends the run.\<close>

fun track_loop :: "'g rng \<Rightarrow> config \<Rightarrow> nat \<Rightarrow> state \<times> 'g \<Rightarrow> error + (state \<times> 'g)" where
  "track_loop R cfg 0 sg = Inr sg"
| "track_loop R cfg (Suc k) sg =
     (case track_frame R cfg sg of
        Inl e \<Rightarrow> Inl e
      | Inr sg' \<Rightarrow> track_loop R cfg k sg')"

text \<open>The assignments before the loop: \<^verbatim>\<open>fix_delay=0\<close>, and the lines under \<^verbatim>\<open>#Setup\<close>.\<close>

definition init_state :: "config \<Rightarrow> state" where
  "init_state cfg =
     \<lparr>ave_delay_envelope = replicate (length (cfg_trial_delays cfg)) (Some 0),
      fix_delay = 0,
      vis_array = [],
      frame_num = 0\<rparr>"

definition tracking :: "'g rng \<Rightarrow> config \<Rightarrow> 'g \<Rightarrow> error + (state \<times> 'g)" where
  "tracking R cfg g = track_loop R cfg (cfg_n_iter cfg) (init_state cfg, g)"

text \<open>A deterministic source for evaluating the model: every draw is a constant.\<close>

definition const_rng :: "nat \<Rightarrow> real \<Rightarrow> real \<Rightarrow> unit rng" where
  "const_rng k r u =
     \<lparr>poisson = (\<lambda>l g. (k, g)), normal = (\<lambda>sc g. (r, g)), random_sample = (\<lambda>g. (u, g))\<rparr>"

text \<open>
  A second deterministic source, whose state counts the draws made: a Poisson draw returns
  the count, a Gaussian draw the constant \<open>r\<close>.
\<close>

definition counter_rng :: "real \<Rightarrow> nat rng" where
  "counter_rng r =
     \<lparr>poisson = (\<lambda>l g. (g, g + 1)), normal = (\<lambda>sc g. (r, g + 1)),
      random_sample = (\<lambda>g. (0, g + 1))\<rparr>"

text \<open>A small configuration for evaluating the loop: one channel, one trial delay.\<close>

definition small_config :: config where
  "small_config =
     \<lparr>cfg_wavelengths = [1], cfg_bandpass = 0, cfg_true_params = (0, 0, 0),
      cfg_trial_delays = [5], cfg_a = 1 / 2, cfg_error_rms = 0,
      cfg_num_group_delay_frames = 1, cfg_bias_vis = 0, cfg_n_iter = 2\<rparr>"


section \<open>Fringe intensity\<close>

text \<open>
  C3. For a non-zero wavelength \<^verbatim>\<open>fringe_flux\<close> returns
  \<open>F \<times> (1 + sinc(x\<cdot>\<Delta>\<lambda>/\<lambda>\<^sup>2) \<times> V \<times> cos(2\<pi>x/\<lambda> - \<phi> - \<phi>\<^sub>d - \<phi>\<^sub>o)\<close>, with the normalised sinc
  \<open>sin(\<pi>u)/(\<pi>u)\<close> (1 at \<open>u = 0\<close>); at delay 0 that is \<open>F \<times> (1 + V\<cdot>cos(-\<phi> - \<phi>\<^sub>d - \<phi>\<^sub>o))\<close>.
  On arrays the function acts on each channel, so the statement holds per element.
\<close>

theorem fringe_flux_formula:
  assumes "lam \<noteq> 0"
  shows "fringe_flux x lam bandpass F_0 vis coh_phase disp_phase offset =
           Some (F_0 * (1 + (let u = x * bandpass / lam ^ 2
                             in if u = 0 then 1 else sin (pi * u) / (pi * u))
                          * vis * cos (2 * pi * x / lam - coh_phase - disp_phase - offset)))
         \<and> fringe_flux 0 lam bandpass F_0 vis coh_phase disp_phase offset =
           Some (F_0 * (1 + vis * cos (- coh_phase - disp_phase - offset)))"
  using assms by (simp add: fringe_flux_def np_sinc_def Let_def)

theorem fringe_flux_formula_witness:
  "(1::real) \<noteq> 0 \<and> fringe_flux 0 1 1 2 1 0 0 0 = Some 4"
  using fringe_flux_formula [of 1 0 1 2 1 0 0 0] by simp


section \<open>Dispersion\<close>

lemma sellmeier_SomeD:
  assumes "sellmeier_equation lam = Some n"
  shows "C1 ^ 2 - lam ^ 2 \<noteq> 0" "C2 ^ 2 - lam ^ 2 \<noteq> 0" "C3 ^ 2 - lam ^ 2 \<noteq> 0" "0 \<le> n"
  using assms by (auto simp: sellmeier_equation_def Let_def split: if_splits)

text \<open>The two terms that each Sellmeier resonance adds to the group-index correction.\<close>

lemma sellmeier_term_sum:
  assumes "c ^ 2 - lam ^ 2 \<noteq> (0::real)"
  shows "b * lam ^ 2 / (c ^ 2 - lam ^ 2) ^ 2 + b / (c ^ 2 - lam ^ 2)
           = b * c ^ 2 / (c ^ 2 - lam ^ 2) ^ 2"
proof -
  have "b / (c ^ 2 - lam ^ 2) = b * (c ^ 2 - lam ^ 2) / (c ^ 2 - lam ^ 2) ^ 2"
    using assms by (simp add: power2_eq_square)
  then show ?thesis by (simp add: algebra_simps add_divide_distrib [symmetric])
qed

lemma sellmeier_term_pos:
  assumes "c ^ 2 - lam ^ 2 \<noteq> (0::real)" "0 < b" "c \<noteq> 0"
  shows "0 < b * lam ^ 2 / (c ^ 2 - lam ^ 2) ^ 2 + b / (c ^ 2 - lam ^ 2)"
  unfolding sellmeier_term_sum [OF assms(1)] using assms by simp

text \<open>A finite group index lies strictly below the phase index, except at wavelength 0.\<close>

lemma group_index_SomeD:
  assumes "calc_group_index lam = Some n_grp"
  shows "\<exists>n. sellmeier_equation lam = Some n \<and> 0 < n \<and> (lam \<noteq> 0 \<longrightarrow> n_grp < n)
             \<and> (lam = 0 \<longrightarrow> n_grp = n)"
proof -
  from assms obtain n where n: "sellmeier_equation lam = Some n" "n \<noteq> 0"
    by (auto simp: calc_group_index_def split: option.splits if_splits)
  from sellmeier_SomeD [OF n(1)] n(2) have pos: "0 < n" and
    d: "C1 ^ 2 - lam ^ 2 \<noteq> 0" "C2 ^ 2 - lam ^ 2 \<noteq> 0" "C3 ^ 2 - lam ^ 2 \<noteq> 0" by auto
  define S where "S = (B1 * lam ^ 2 / (C1 ^ 2 - lam ^ 2) ^ 2 + B1 / (C1 ^ 2 - lam ^ 2))
     + (B2 * lam ^ 2 / (C2 ^ 2 - lam ^ 2) ^ 2 + B2 / (C2 ^ 2 - lam ^ 2))
     + (B3 * lam ^ 2 / (C3 ^ 2 - lam ^ 2) ^ 2 + B3 / (C3 ^ 2 - lam ^ 2))"
  have "0 < B1 * lam ^ 2 / (C1 ^ 2 - lam ^ 2) ^ 2 + B1 / (C1 ^ 2 - lam ^ 2)"
    by (rule sellmeier_term_pos [OF d(1)]) (simp_all add: B1_def C1_def)
  moreover have "0 < B2 * lam ^ 2 / (C2 ^ 2 - lam ^ 2) ^ 2 + B2 / (C2 ^ 2 - lam ^ 2)"
    by (rule sellmeier_term_pos [OF d(2)]) (simp_all add: B2_def C2_def)
  moreover have "0 < B3 * lam ^ 2 / (C3 ^ 2 - lam ^ 2) ^ 2 + B3 / (C3 ^ 2 - lam ^ 2)"
    by (rule sellmeier_term_pos [OF d(3)]) (simp_all add: B3_def C3_def)
  ultimately have S: "0 < S" unfolding S_def by linarith
  have eq: "n_grp = n - lam ^ 2 * S / n"
    using assms n by (simp add: calc_group_index_def Let_def S_def add.assoc)
  have "lam \<noteq> 0 \<Longrightarrow> 0 < lam ^ 2 * S / n" using S pos by simp
  with eq n pos show ?thesis by auto
qed

text \<open>Below the first resonance both indices are finite.\<close>

lemma sellmeier_small:
  assumes "lam ^ 2 < C1 ^ 2"
  shows "\<exists>n. sellmeier_equation lam = Some n \<and> 1 \<le> n"
proof -
  have c: "C1 ^ 2 < C2 ^ 2" "C2 ^ 2 < C3 ^ 2"
    by (simp_all add: C1_def C2_def C3_def power2_eq_square)
  have d: "0 < C1 ^ 2 - lam ^ 2" "0 < C2 ^ 2 - lam ^ 2" "0 < C3 ^ 2 - lam ^ 2"
    using assms c by linarith+
  have "0 \<le> B1 * lam ^ 2 / (C1 ^ 2 - lam ^ 2)" "0 \<le> B2 * lam ^ 2 / (C2 ^ 2 - lam ^ 2)"
    "0 \<le> B3 * lam ^ 2 / (C3 ^ 2 - lam ^ 2)"
    using d by (simp_all add: B1_def B2_def B3_def)
  then have "1 \<le> 1 + B1 * lam ^ 2 / (C1 ^ 2 - lam ^ 2) + B2 * lam ^ 2 / (C2 ^ 2 - lam ^ 2)
                   + B3 * lam ^ 2 / (C3 ^ 2 - lam ^ 2)" (is "1 \<le> ?n2")
    by linarith
  moreover from this have "1 \<le> sqrt ?n2" by simp
  ultimately show ?thesis using d by (simp add: sellmeier_equation_def Let_def)
qed

lemma group_index_small:
  assumes "lam ^ 2 < C1 ^ 2"
  shows "\<exists>n_grp. calc_group_index lam = Some n_grp"
proof -
  from sellmeier_small [OF assms] obtain n where "sellmeier_equation lam = Some n" "1 \<le> n"
    by blast
  then show ?thesis by (simp add: calc_group_index_def Let_def)
qed

lemma lam_675_small: "(675 / 10 ^ 9 :: real) ^ 2 < C1 ^ 2"
  by (simp add: C1_def power2_eq_square)

lemma phaseshift_zero_length:
  assumes "lam ^ 2 < C1 ^ 2" "lam \<noteq> 0" "lam_0 ^ 2 < C1 ^ 2"
  shows "phaseshift_glass lam 0 lam_0 = Some 0"
proof -
  obtain n where n: "sellmeier_equation lam = Some n"
    using sellmeier_small [OF assms(1)] by blast
  obtain n_grp where g: "calc_group_index lam_0 = Some n_grp"
    using group_index_small [OF assms(3)] by blast
  show ?thesis using n g assms(2) by (simp add: phaseshift_glass_def)
qed

text \<open>The gap between phase index and group index at one wavelength, in closed form.\<close>

lemma group_index_gap:
  assumes "calc_group_index lam = Some n_grp" "sellmeier_equation lam = Some n"
  shows "n - n_grp = lam ^ 2 * (B1 * C1 ^ 2 / (C1 ^ 2 - lam ^ 2) ^ 2
                                + B2 * C2 ^ 2 / (C2 ^ 2 - lam ^ 2) ^ 2
                                + B3 * C3 ^ 2 / (C3 ^ 2 - lam ^ 2) ^ 2) / n"
proof -
  from sellmeier_SomeD [OF assms(2)] have
    d: "C1 ^ 2 - lam ^ 2 \<noteq> 0" "C2 ^ 2 - lam ^ 2 \<noteq> 0" "C3 ^ 2 - lam ^ 2 \<noteq> 0" by auto
  from assms have "n_grp = n - lam ^ 2 *
      ((B1 * lam ^ 2 / (C1 ^ 2 - lam ^ 2) ^ 2 + B1 / (C1 ^ 2 - lam ^ 2))
     + (B2 * lam ^ 2 / (C2 ^ 2 - lam ^ 2) ^ 2 + B2 / (C2 ^ 2 - lam ^ 2))
     + (B3 * lam ^ 2 / (C3 ^ 2 - lam ^ 2) ^ 2 + B3 / (C3 ^ 2 - lam ^ 2))) / n"
    by (simp add: calc_group_index_def Let_def add.assoc split: if_splits)
  then show ?thesis
    unfolding sellmeier_term_sum [OF d(1)] sellmeier_term_sum [OF d(2)]
      sellmeier_term_sum [OF d(3)]
    by simp
qed

text \<open>
  C7, as amended. When the wavelength is not 0 and both indices are finite,
  \<^verbatim>\<open>phaseshift_glass\<close> is \<open>(n_phase(\<lambda>) - n_group(\<lambda>\<^sub>0)) \<times> L \<times> 2\<pi> / \<lambda>\<close>, with the phase
  index of \<^verbatim>\<open>sellmeier_equation\<close> and the group index of \<^verbatim>\<open>calc_group_index\<close>. At
  \<open>\<lambda> = \<lambda>\<^sub>0\<close> the index difference is
  \<open>\<lambda>\<^sup>2 (B\<^sub>1C\<^sub>1\<^sup>2/(C\<^sub>1\<^sup>2 - \<lambda>\<^sup>2)\<^sup>2 + B\<^sub>2C\<^sub>2\<^sup>2/(C\<^sub>2\<^sup>2 - \<lambda>\<^sup>2)\<^sup>2 + B\<^sub>3C\<^sub>3\<^sup>2/(C\<^sub>3\<^sup>2 - \<lambda>\<^sup>2)\<^sup>2) / n_phase(\<lambda>)\<close>,
  which is positive, so in exact real arithmetic the phase shift at \<open>\<lambda> = \<lambda>\<^sub>0\<close> is not zero
  provided the glass length \<open>L\<close> is not zero. The statement is about exact arithmetic
  only: the difference is of the order of \<open>\<lambda>\<^sup>2 \<times> 3\<times>10\<^sup>4\<close>, and in \<^verbatim>\<open>float64\<close> the two indices,
  both close to 1, round to the same number once that is below the spacing of floats
  near 1 (for instance at \<open>\<lambda> = 1e-11\<close>); there the program returns \<^verbatim>\<open>0.0\<close>.
\<close>

theorem phaseshift_glass_formula:
  assumes "lam \<noteq> 0" "sellmeier_equation lam = Some n" "calc_group_index lam_0 = Some n_grp"
  shows "phaseshift_glass lam len lam_0 = Some ((n - n_grp) * len * 2 * pi / lam)
         \<and> (lam = lam_0 \<longrightarrow>
              n - n_grp = lam ^ 2 * (B1 * C1 ^ 2 / (C1 ^ 2 - lam ^ 2) ^ 2
                                     + B2 * C2 ^ 2 / (C2 ^ 2 - lam ^ 2) ^ 2
                                     + B3 * C3 ^ 2 / (C3 ^ 2 - lam ^ 2) ^ 2) / n
              \<and> 0 < n - n_grp)
         \<and> (lam = lam_0 \<and> len \<noteq> 0 \<longrightarrow> (n - n_grp) * len * 2 * pi / lam \<noteq> 0)"
proof -
  have c1: "phaseshift_glass lam len lam_0 = Some ((n - n_grp) * len * 2 * pi / lam)"
    using assms by (simp add: phaseshift_glass_def Let_def)
  have gap: "0 < n - n_grp" if "lam = lam_0"
    using group_index_SomeD [OF assms(3)] assms(1,2) that by auto
  have c2: "n - n_grp = lam ^ 2 * (B1 * C1 ^ 2 / (C1 ^ 2 - lam ^ 2) ^ 2
                                     + B2 * C2 ^ 2 / (C2 ^ 2 - lam ^ 2) ^ 2
                                     + B3 * C3 ^ 2 / (C3 ^ 2 - lam ^ 2) ^ 2) / n"
    if "lam = lam_0"
    using group_index_gap [of lam n_grp n] assms(2,3) that by simp
  have c3: "(n - n_grp) * len * 2 * pi / lam \<noteq> 0" if "lam = lam_0" "len \<noteq> 0"
    using gap [OF that(1)] that(2) assms(1) by simp
  from c1 c2 gap c3 show ?thesis by blast
qed

theorem phaseshift_glass_formula_witness:
  "\<exists>n n_grp. (675 / 10 ^ 9 :: real) \<noteq> 0 \<and> sellmeier_equation (675 / 10 ^ 9) = Some n
     \<and> calc_group_index (675 / 10 ^ 9) = Some n_grp
     \<and> phaseshift_glass (675 / 10 ^ 9) (5 / 100) (675 / 10 ^ 9)
         = Some ((n - n_grp) * (5 / 100) * 2 * pi / (675 / 10 ^ 9))
     \<and> (n - n_grp) * (5 / 100) * 2 * pi / (675 / 10 ^ 9) \<noteq> 0"
proof -
  obtain n where n: "sellmeier_equation (675 / 10 ^ 9) = Some n"
    using sellmeier_small [OF lam_675_small] by blast
  obtain n_grp where g: "calc_group_index (675 / 10 ^ 9) = Some n_grp"
    using group_index_small [OF lam_675_small] by blast
  have z: "(675 / 10 ^ 9 :: real) \<noteq> 0" by simp
  from phaseshift_glass_formula [OF z n g, of "5 / 100"] n g z show ?thesis by simp
qed

text \<open>
  C7 as stated fails without glass: at \<open>\<lambda> = \<lambda>\<^sub>0 = 675e-9\<close> and length 0 the phase shift
  is 0.
\<close>

theorem phaseshift_glass_zero_for_no_glass:
  "phaseshift_glass (675 / 10 ^ 9) 0 (675 / 10 ^ 9) = Some 0"
  by (rule phaseshift_zero_length) (simp_all add: C1_def power2_eq_square)


section \<open>Envelope maximisation\<close>

text \<open>
  The scan of \<^verbatim>\<open>np.argmax\<close>, started after a prefix \<open>pre\<close> whose first maximum is at \<open>mi\<close>,
  ends at the first maximum of the whole array.
\<close>

lemma argmax_scan_spec:
  assumes "mi < i" "mi < length pre" "i = length pre" "pre ! mi = mx"
    "\<forall>j < length pre. pre ! j \<le> mx" "\<forall>j < mi. pre ! j < mx"
  shows "let r = argmax_scan xs i mx mi in
         r < length (pre @ xs) \<and> (\<forall>j < length (pre @ xs). (pre @ xs) ! j \<le> (pre @ xs) ! r)
         \<and> (\<forall>j < r. (pre @ xs) ! j < (pre @ xs) ! r)"
  using assms
proof (induction xs arbitrary: i mx mi pre)
  case Nil
  then show ?case by (simp add: Let_def)
next
  case (Cons x xs)
  show ?case
  proof (cases "mx < x")
    case True
    have "let r = argmax_scan xs (Suc i) x i in
         r < length ((pre @ [x]) @ xs)
         \<and> (\<forall>j < length ((pre @ [x]) @ xs). ((pre @ [x]) @ xs) ! j \<le> ((pre @ [x]) @ xs) ! r)
         \<and> (\<forall>j < r. ((pre @ [x]) @ xs) ! j < ((pre @ [x]) @ xs) ! r)"
    proof (rule Cons.IH)
      show "i < Suc i" by simp
      show "i < length (pre @ [x])" using Cons.prems by simp
      show "Suc i = length (pre @ [x])" using Cons.prems by simp
      show "(pre @ [x]) ! i = x" using Cons.prems by (simp add: nth_append)
      show "\<forall>j<length (pre @ [x]). (pre @ [x]) ! j \<le> x"
        using Cons.prems True
        by (auto simp: nth_append less_Suc_eq intro: order.trans less_imp_le)
      show "\<forall>j<i. (pre @ [x]) ! j < x"
        using Cons.prems True by (auto simp: nth_append intro: le_less_trans)
    qed
    with True show ?thesis by simp
  next
    case False
    have "let r = argmax_scan xs (Suc i) mx mi in
         r < length ((pre @ [x]) @ xs)
         \<and> (\<forall>j < length ((pre @ [x]) @ xs). ((pre @ [x]) @ xs) ! j \<le> ((pre @ [x]) @ xs) ! r)
         \<and> (\<forall>j < r. ((pre @ [x]) @ xs) ! j < ((pre @ [x]) @ xs) ! r)"
    proof (rule Cons.IH)
      show "mi < Suc i" using Cons.prems by simp
      show "mi < length (pre @ [x])" using Cons.prems by simp
      show "Suc i = length (pre @ [x])" using Cons.prems by simp
      show "(pre @ [x]) ! mi = mx" using Cons.prems by (simp add: nth_append)
      show "\<forall>j<length (pre @ [x]). (pre @ [x]) ! j \<le> mx"
        using Cons.prems False by (auto simp: nth_append less_Suc_eq)
      show "\<forall>j<mi. (pre @ [x]) ! j < mx"
        using Cons.prems by (auto simp: nth_append)
    qed
    with False show ?thesis by simp
  qed
qed

lemma np_argmax_spec:
  assumes "xs \<noteq> []"
  shows "\<exists>r. np_argmax xs = Inr r \<and> r < length xs \<and> (\<forall>j < length xs. xs ! j \<le> xs ! r)
         \<and> (\<forall>j < r. xs ! j < xs ! r)"
proof -
  from assms obtain x rest where xs: "xs = x # rest" by (cases xs) auto
  have "let r = argmax_scan rest 1 x 0 in
         r < length ([x] @ rest) \<and> (\<forall>j < length ([x] @ rest). ([x] @ rest) ! j \<le> ([x] @ rest) ! r)
         \<and> (\<forall>j < r. ([x] @ rest) ! j < ([x] @ rest) ! r)"
    by (rule argmax_scan_spec) auto
  then show ?thesis by (simp add: xs np_argmax_def Let_def)
qed

text \<open>
  C6. For a non-empty delay envelope (of finite values) and a trial-delay sequence of the
  same length, \<^verbatim>\<open>find_delay\<close> returns the trial delay at an index \<open>i\<close> where the envelope
  is maximal, and every earlier entry of the envelope is strictly smaller: the first
  maximum in sequence order.
\<close>

theorem find_delay_first_max:
  assumes "delay_envelope \<noteq> []" "length trial_delays = length delay_envelope"
  shows "\<exists>i < length delay_envelope.
           find_delay delay_envelope trial_delays = Inr (trial_delays ! i)
           \<and> (\<forall>j < length delay_envelope. delay_envelope ! j \<le> delay_envelope ! i)
           \<and> (\<forall>j < i. delay_envelope ! j < delay_envelope ! i)"
proof -
  from np_argmax_spec [OF assms(1)] obtain r where r: "np_argmax delay_envelope = Inr r"
    "r < length delay_envelope"
    "\<forall>j < length delay_envelope. delay_envelope ! j \<le> delay_envelope ! r"
    "\<forall>j < r. delay_envelope ! j < delay_envelope ! r" by blast
  then have "find_delay delay_envelope trial_delays = Inr (trial_delays ! r)"
    using assms(2) by (simp add: find_delay_def)
  with r show ?thesis by blast
qed

theorem find_delay_first_max_witness:
  "[1, 3, 3, 2::real] \<noteq> [] \<and> length [10, 20, 30, 40::real] = length [1, 3, 3, 2::real]
   \<and> find_delay [1, 3, 3, 2] [10, 20, 30, 40] = Inr 20"
proof -
  have "find_delay [1, 3, 3, 2] [10, 20, 30, 40] = Inr 20"
    by (simp add: find_delay_def np_argmax_def)
  then show ?thesis using find_delay_first_max [of "[1, 3, 3, 2]" "[10, 20, 30, 40]"] by simp
qed


section \<open>Chi-squared of the AC coupler\<close>

lemma those_SomeD: "those xs = Some ys \<Longrightarrow> xs = map Some ys"
  by (induction xs arbitrary: ys) (auto split: option.splits)

lemma those_map_Some: "those (map Some ys) = Some ys"
  by (induction ys) auto

lemma those_None_iff: "those xs = None \<longleftrightarrow> None \<in> set xs"
  by (induction xs) (auto split: option.splits)

lemma np_sum_map_Some: "np_sum (map Some ys) = Some (sum_list ys)"
  by (simp add: np_sum_def those_map_Some)

text \<open>Whether the model value of a channel is finite does not depend on the delay.\<close>

lemma chi_model_finite_any_delay:
  "chi_model d lam len lam_0 = Some v \<Longrightarrow>
     chi_model t lam len lam_0
       = Some (cos (2 * pi * t / lam - the (phaseshift_glass lam len lam_0)))"
  by (auto simp: chi_model_def split: option.splits if_splits)

lemma chi_models_finite_any_delay:
  assumes "map (\<lambda>lam. chi_model d lam len lam_0) wavelengths = map Some ms"
  shows "map (\<lambda>lam. chi_model t lam len lam_0) wavelengths
           = map Some (map (\<lambda>lam. cos (2 * pi * t / lam - the (phaseshift_glass lam len lam_0)))
                         wavelengths)"
proof -
  have "\<forall>lam \<in> set wavelengths. \<exists>v. chi_model d lam len lam_0 = Some v"
  proof
    fix lam assume "lam \<in> set wavelengths"
    then have "chi_model d lam len lam_0 \<in> set (map Some ms)"
      using assms [symmetric] by auto
    then show "\<exists>v. chi_model d lam len lam_0 = Some v" by auto
  qed
  then show ?thesis by (auto dest: chi_model_finite_any_delay)
qed

lemma np_sum_squares:
  "np_sum (map2 (\<lambda>m g. map_option (\<lambda>v. (v - g) ^ 2) m) (map Some ms) gs)
     = Some (sum_list (map (\<lambda>(m, g). (m - g) ^ 2) (zip ms (gs :: real list))))"
proof -
  have "map2 (\<lambda>m g. map_option (\<lambda>v. (v - g) ^ 2) m) (map Some ms) gs
          = map Some (map (\<lambda>(m, g). (m - g) ^ 2) (zip ms gs))"
    by (induction ms arbitrary: gs) (auto simp: zip_Cons1 split: list.splits)
  then show ?thesis by (simp only: np_sum_map_Some)
qed

lemma sum_list_squares_nonneg:
  "0 \<le> sum_list (map (\<lambda>(m, g). (m - g) ^ 2) (zip ms (gs :: real list)))"
  by (rule sum_list_nonneg) auto

lemma sum_list_squares_self:
  "sum_list (map (\<lambda>(m, g). (m - g) ^ 2) (zip gs (gs :: real list))) = 0"
  by (induction gs) auto

lemma chi_2_of_exact_model:
  assumes "map (\<lambda>lam. chi_model d lam len lam_0) wavelengths = map Some gamma_r"
  shows "calc_chi_2_AC gamma_r d wavelengths len lam_0 = Inr (Some 0)"
    and "\<exists>c. calc_chi_2_AC gamma_r t wavelengths len lam_0 = Inr (Some c) \<and> 0 \<le> c"
proof -
  from assms have len: "length wavelengths = length gamma_r"
    by (metis length_map)
  show "calc_chi_2_AC gamma_r d wavelengths len lam_0 = Inr (Some 0)"
    unfolding calc_chi_2_AC_def assms
    by (simp add: np_broadcast_def np_sum_squares sum_list_squares_self del: map_map zip_map1)
  show "\<exists>c. calc_chi_2_AC gamma_r t wavelengths len lam_0 = Inr (Some c) \<and> 0 \<le> c"
    unfolding calc_chi_2_AC_def chi_models_finite_any_delay [OF assms]
    using len
    by (simp add: np_broadcast_def np_sum_squares sum_list_squares_nonneg del: map_map zip_map1)
qed

lemma chi_model_no_glass:
  assumes "lam ^ 2 < C1 ^ 2" "lam \<noteq> 0" "lam_0 ^ 2 < C1 ^ 2"
  shows "chi_model d lam 0 lam_0 = Some (cos (2 * pi * d / lam))"
  using assms by (simp add: chi_model_def phaseshift_zero_length)

text \<open>Chi-squared of one channel at 675e-9 without extra glass.\<close>

lemma calc_chi_2_one_channel:
  "calc_chi_2_AC [g] d [675 / 10 ^ 9] 0 (675 / 10 ^ 9)
     = Inr (Some ((cos (2 * pi * d / (675 / 10 ^ 9)) - g) ^ 2))"
proof -
  have "chi_model d (675 / 10 ^ 9) 0 (675 / 10 ^ 9) = Some (cos (2 * pi * d / (675 / 10 ^ 9)))"
    by (rule chi_model_no_glass) (simp_all add: C1_def power2_eq_square)
  then show ?thesis by (simp add: calc_chi_2_AC_def np_broadcast_def np_sum_def)
qed

text \<open>
  C4. Let \<open>gamma_r\<close> be the noiseless model at a delay \<open>d\<close> of the trial-delay sequence:
  one entry per channel, equal to \<open>cos(2\<pi>d/\<lambda> - phaseshift_glass(\<lambda>, L, \<lambda>\<^sub>0))\<close>. Then
  \<^verbatim>\<open>calc_chi_2_AC\<close> at \<open>d\<close> is 0, and at every trial delay it is a finite value \<open>\<ge> 0\<close>:
  0 is the minimum over the sequence.
\<close>

theorem chi_2_zero_at_true_delay:
  assumes "length gamma_r = length wavelengths"
    and "\<forall>k < length wavelengths.
           \<exists>ps. phaseshift_glass (wavelengths ! k) len lam_0 = Some ps
                \<and> gamma_r ! k = cos (2 * pi * d / wavelengths ! k - ps)"
    and "d \<in> set trial_delays"
  shows "calc_chi_2_AC gamma_r d wavelengths len lam_0 = Inr (Some 0)
         \<and> (\<forall>t \<in> set trial_delays.
               \<exists>c. calc_chi_2_AC gamma_r t wavelengths len lam_0 = Inr (Some c) \<and> 0 \<le> c)"
proof -
  have "map (\<lambda>lam. chi_model d lam len lam_0) wavelengths = map Some gamma_r"
  proof (rule nth_equalityI)
    show "length (map (\<lambda>lam. chi_model d lam len lam_0) wavelengths) = length (map Some gamma_r)"
      using assms(1) by simp
  next
    fix k assume "k < length (map (\<lambda>lam. chi_model d lam len lam_0) wavelengths)"
    then have k: "k < length wavelengths" by simp
    with assms(2) obtain ps where
      ps: "phaseshift_glass (wavelengths ! k) len lam_0 = Some ps"
          "gamma_r ! k = cos (2 * pi * d / wavelengths ! k - ps)" by blast
    from ps(1) have "wavelengths ! k \<noteq> 0"
      by (auto simp: phaseshift_glass_def split: option.splits if_splits)
    with ps k assms(1)
    show "map (\<lambda>lam. chi_model d lam len lam_0) wavelengths ! k = map Some gamma_r ! k"
      by (simp add: chi_model_def)
  qed
  from chi_2_of_exact_model [OF this] show ?thesis by blast
qed

theorem chi_2_zero_at_true_delay_witness:
  "length [1::real] = length [675 / 10 ^ 9 :: real]
   \<and> phaseshift_glass (675 / 10 ^ 9) 0 (675 / 10 ^ 9) = Some 0
   \<and> [1::real] ! 0 = cos (2 * pi * 0 / (675 / 10 ^ 9) - 0)
   \<and> (0::real) \<in> set [0]
   \<and> calc_chi_2_AC [1] 0 [675 / 10 ^ 9] 0 (675 / 10 ^ 9) = Inr (Some 0)"
proof -
  have p: "phaseshift_glass (675 / 10 ^ 9) 0 (675 / 10 ^ 9) = Some 0"
    by (rule phaseshift_zero_length) (simp_all add: C1_def power2_eq_square)
  have l: "length [1::real] = length [675 / 10 ^ 9 :: real]" by simp
  have h: "\<forall>k < length [675 / 10 ^ 9 :: real].
           \<exists>ps. phaseshift_glass ([675 / 10 ^ 9] ! k) 0 (675 / 10 ^ 9) = Some ps
                \<and> [1] ! k = cos (2 * pi * 0 / [675 / 10 ^ 9] ! k - ps)"
    using p by simp
  have m: "(0::real) \<in> set [0]" by simp
  from chi_2_zero_at_true_delay [OF l h m] p show ?thesis by simp
qed


section \<open>Chi-squared minimisation\<close>

text \<open>
  The scan with \<^verbatim>\<open>plot=True\<close> passes through the same states as the scan with
  \<^verbatim>\<open>plot=False\<close> and collects the chi-squared of every trial delay.
\<close>

lemma scan_AC_plot_eq:
  "scan_AC_plot gamma_r wavelengths len lam_0 ds (st, arr) =
     (case scan_AC gamma_r wavelengths len lam_0 ds st of
        Inl e \<Rightarrow> Inl e
      | Inr st' \<Rightarrow> Inr (st', arr @ map (\<lambda>d. projr (calc_chi_2_AC gamma_r d wavelengths len lam_0)) ds))"
proof (induction ds arbitrary: st arr)
  case Nil
  then show ?case by simp
next
  case (Cons d ds)
  obtain cm dm where st: "st = (cm, dm)" by (cases st)
  show ?case
    by (cases "calc_chi_2_AC gamma_r d wavelengths len lam_0")
       (simp_all add: st Cons.IH split: sum.splits)
qed

text \<open>
  Invariant of the scan: either no trial delay went below the initial \<^verbatim>\<open>chi_2_min\<close> and
  the state is unchanged, or the state holds the first trial delay of least chi-squared.
\<close>

lemma scan_AC_first_min:
  assumes "scan_AC gamma_r wavelengths len lam_0 ds (cm, dm) = Inr (cm', dm')"
  shows "(dm' = dm \<and> cm' = cm
            \<and> (\<forall>t \<in> set ds. \<forall>c. calc_chi_2_AC gamma_r t wavelengths len lam_0 = Inr (Some c)
                    \<longrightarrow> cm \<le> c))
       \<or> (\<exists>i < length ds. dm' = Some (ds ! i)
             \<and> calc_chi_2_AC gamma_r (ds ! i) wavelengths len lam_0 = Inr (Some cm')
             \<and> cm' < cm
             \<and> (\<forall>t \<in> set ds. \<forall>c. calc_chi_2_AC gamma_r t wavelengths len lam_0 = Inr (Some c)
                    \<longrightarrow> cm' \<le> c)
             \<and> (\<forall>t \<in> set (take i ds). \<forall>c. calc_chi_2_AC gamma_r t wavelengths len lam_0 = Inr (Some c)
                    \<longrightarrow> cm' < c))"
  using assms
proof (induction ds arbitrary: cm dm)
  case Nil
  then show ?case by simp
next
  case (Cons d ds)
  let ?chi = "\<lambda>t. calc_chi_2_AC gamma_r t wavelengths len lam_0"
  from Cons.prems obtain c where c: "?chi d = Inr c"
    by (cases "?chi d") auto
  show ?case
  proof (cases "chi_less c cm")
    case True
    then obtain v where v: "c = Some v" "v < cm"
      by (auto simp: chi_less_def split: option.splits)
    from Cons.prems c True v
    have rec: "scan_AC gamma_r wavelengths len lam_0 ds (v, Some d) = Inr (cm', dm')" by simp
    from Cons.IH [OF rec] show ?thesis
    proof (elim disjE exE conjE)
      assume a: "dm' = Some d" "cm' = v"
        "\<forall>t \<in> set ds. \<forall>c. ?chi t = Inr (Some c) \<longrightarrow> v \<le> c"
      have "0 < length (d # ds) \<and> dm' = Some ((d # ds) ! 0) \<and> ?chi ((d # ds) ! 0) = Inr (Some cm')
             \<and> cm' < cm \<and> (\<forall>t \<in> set (d # ds). \<forall>c. ?chi t = Inr (Some c) \<longrightarrow> cm' \<le> c)
             \<and> (\<forall>t \<in> set (take 0 (d # ds)). \<forall>c. ?chi t = Inr (Some c) \<longrightarrow> cm' < c)"
        using a c v by auto
      then show ?thesis by blast
    next
      fix i assume a: "i < length ds" "dm' = Some (ds ! i)" "?chi (ds ! i) = Inr (Some cm')"
        "cm' < v" "\<forall>t \<in> set ds. \<forall>c. ?chi t = Inr (Some c) \<longrightarrow> cm' \<le> c"
        "\<forall>t \<in> set (take i ds). \<forall>c. ?chi t = Inr (Some c) \<longrightarrow> cm' < c"
      have "Suc i < length (d # ds) \<and> dm' = Some ((d # ds) ! Suc i)
             \<and> ?chi ((d # ds) ! Suc i) = Inr (Some cm')
             \<and> cm' < cm \<and> (\<forall>t \<in> set (d # ds). \<forall>c. ?chi t = Inr (Some c) \<longrightarrow> cm' \<le> c)
             \<and> (\<forall>t \<in> set (take (Suc i) (d # ds)). \<forall>c. ?chi t = Inr (Some c) \<longrightarrow> cm' < c)"
        using a c v by auto
      then show ?thesis by blast
    qed
  next
    case False
    from Cons.prems c False
    have rec: "scan_AC gamma_r wavelengths len lam_0 ds (cm, dm) = Inr (cm', dm')" by simp
    have d_ge: "\<forall>c'. ?chi d = Inr (Some c') \<longrightarrow> cm \<le> c'"
      using c False by (auto simp: chi_less_def)
    from Cons.IH [OF rec] show ?thesis
    proof (elim disjE exE conjE)
      assume a: "dm' = dm" "cm' = cm"
        "\<forall>t \<in> set ds. \<forall>c. ?chi t = Inr (Some c) \<longrightarrow> cm \<le> c"
      then show ?thesis using d_ge by auto
    next
      fix i assume a: "i < length ds" "dm' = Some (ds ! i)" "?chi (ds ! i) = Inr (Some cm')"
        "cm' < cm" "\<forall>t \<in> set ds. \<forall>c. ?chi t = Inr (Some c) \<longrightarrow> cm' \<le> c"
        "\<forall>t \<in> set (take i ds). \<forall>c. ?chi t = Inr (Some c) \<longrightarrow> cm' < c"
      have "Suc i < length (d # ds) \<and> dm' = Some ((d # ds) ! Suc i)
             \<and> ?chi ((d # ds) ! Suc i) = Inr (Some cm')
             \<and> cm' < cm \<and> (\<forall>t \<in> set (d # ds). \<forall>c. ?chi t = Inr (Some c) \<longrightarrow> cm' \<le> c)
             \<and> (\<forall>t \<in> set (take (Suc i) (d # ds)). \<forall>c. ?chi t = Inr (Some c) \<longrightarrow> cm' < c)"
        using a d_ge by fastforce
      then show ?thesis by blast
    qed
  qed
qed

text \<open>Whether chi-squared is finite does not depend on the trial delay.\<close>

lemma broadcast_rel:
  assumes "length ms = length ms'" "\<forall>k < length ms. (ms ! k = None) = (ms' ! k = None)"
    and "np_broadcast (\<lambda>m g. map_option (\<lambda>v. f v g) m) ms gs = Inr r"
  shows "\<exists>r'. np_broadcast (\<lambda>m g. map_option (\<lambda>v. f v g) m) ms' gs = Inr r'
             \<and> (None \<in> set r) = (None \<in> set r')"
proof -
  consider (eq) "length ms = length gs" | (l1) "length ms \<noteq> length gs" "length ms = 1"
    | (r1) "length ms \<noteq> length gs" "length ms \<noteq> 1" "length gs = 1"
    using assms(3) by (auto simp: np_broadcast_def split: if_splits)
  then show ?thesis
  proof cases
    case eq
    then have "(None \<in> set (map2 (\<lambda>m g. map_option (\<lambda>v. f v g) m) ms gs))
             = (None \<in> set (map2 (\<lambda>m g. map_option (\<lambda>v. f v g) m) ms' gs))"
      using assms(1,2) by (auto simp: set_zip image_iff) metis+
    with eq assms show ?thesis by (auto simp: np_broadcast_def)
  next
    case l1
    then obtain a where a: "ms = [a]" by (cases ms) auto
    with assms(1) obtain a' where a': "ms' = [a']" by (cases ms') auto
    from assms(2) a a' have "(a = None) = (a' = None)" by auto
    with l1 a a' assms(3) show ?thesis by (auto simp: np_broadcast_def image_iff)
  next
    case r1
    then obtain g where g: "gs = [g]" by (cases gs) auto
    have "(None \<in> set (map (\<lambda>x. map_option (\<lambda>v. f v g) x) ms))
             = (None \<in> set (map (\<lambda>x. map_option (\<lambda>v. f v g) x) ms'))"
      using assms(1,2) by (auto simp: in_set_conv_nth image_iff)
    with r1 g assms(1,3) show ?thesis by (auto simp: np_broadcast_def)
  qed
qed

lemma chi_2_finite_any_delay:
  assumes "calc_chi_2_AC gamma_r d wavelengths len lam_0 = Inr (Some c)"
  shows "\<exists>c'. calc_chi_2_AC gamma_r t wavelengths len lam_0 = Inr (Some c')"
proof -
  let ?f = "\<lambda>m g. map_option (\<lambda>v. (v - g) ^ 2) m"
  let ?ms = "map (\<lambda>lam. chi_model d lam len lam_0) wavelengths"
  let ?ms' = "map (\<lambda>lam. chi_model t lam len lam_0) wavelengths"
  from assms obtain r where r: "np_broadcast ?f ?ms gamma_r = Inr r" "np_sum r = Some c"
    by (auto simp: calc_chi_2_AC_def split: sum.splits)
  have rel: "\<forall>k < length ?ms. (?ms ! k = None) = (?ms' ! k = None)"
    by (auto simp: chi_model_def split: option.splits)
  from broadcast_rel [OF _ rel r(1)] obtain r' where
    r': "np_broadcast ?f ?ms' gamma_r = Inr r'" "(None \<in> set r) = (None \<in> set r')" by auto
  from r(2) have "None \<notin> set r"
    by (auto simp: np_sum_def those_None_iff [symmetric])
  with r'(2) have "those r' \<noteq> None" by (simp add: those_None_iff)
  with r'(1) show ?thesis by (auto simp: calc_chi_2_AC_def np_sum_def)
qed

text \<open>
  C5. When \<^verbatim>\<open>find_delay_AC\<close> returns a delay (with or without plotting), it is the trial
  delay at an index \<open>i\<close> whose chi-squared is least over the whole scan, and every trial
  delay before \<open>i\<close> has a strictly greater chi-squared: among equal minima the first in
  scan order is returned, a later one is never adopted.
\<close>

theorem find_delay_AC_first_minimum:
  assumes "snd (find_delay_AC gamma_r trial_delays wavelengths len lam_0 plot) = Inr d"
  shows "\<exists>i < length trial_delays. \<exists>c.
           d = trial_delays ! i
           \<and> calc_chi_2_AC gamma_r (trial_delays ! i) wavelengths len lam_0 = Inr (Some c)
           \<and> (\<forall>j < length trial_delays. \<exists>c'.
                 calc_chi_2_AC gamma_r (trial_delays ! j) wavelengths len lam_0 = Inr (Some c')
                 \<and> c \<le> c' \<and> (j < i \<longrightarrow> c < c'))"
proof -
  let ?chi = "\<lambda>t. calc_chi_2_AC gamma_r t wavelengths len lam_0"
  from assms obtain cm' where
    scan: "scan_AC gamma_r wavelengths len lam_0 trial_delays (10 ^ 10, None) = Inr (cm', Some d)"
    by (cases plot)
       (auto simp: find_delay_AC_def scan_AC_plot_eq return_delay_min_def Let_def
             split: sum.splits option.splits prod.splits)
  from scan_AC_first_min [OF scan] obtain i where i: "i < length trial_delays"
    "d = trial_delays ! i" "?chi (trial_delays ! i) = Inr (Some cm')"
    "\<forall>t \<in> set trial_delays. \<forall>c. ?chi t = Inr (Some c) \<longrightarrow> cm' \<le> c"
    "\<forall>t \<in> set (take i trial_delays). \<forall>c. ?chi t = Inr (Some c) \<longrightarrow> cm' < c"
    by auto
  have "\<exists>c'. ?chi (trial_delays ! j) = Inr (Some c') \<and> cm' \<le> c' \<and> (j < i \<longrightarrow> cm' < c')"
    if j: "j < length trial_delays" for j
  proof -
    from chi_2_finite_any_delay [OF i(3)] obtain c' where c': "?chi (trial_delays ! j) = Inr (Some c')"
      by blast
    from j i(4) c' have "cm' \<le> c'" by auto
    moreover have "cm' < c'" if "j < i"
    proof -
      from that j have "trial_delays ! j \<in> set (take i trial_delays)"
        by (metis in_set_conv_nth length_take min_less_iff_conj nth_take)
      with i(5) c' show ?thesis by blast
    qed
    ultimately show ?thesis using c' by blast
  qed
  with i(1,2,3) show ?thesis by blast
qed

text \<open>
  Two trial delays one wavelength apart have the same chi-squared (here 0); the first in
  scan order is returned.
\<close>

theorem find_delay_AC_first_minimum_witness:
  "snd (find_delay_AC [1] [675 / 10 ^ 9, 0] [675 / 10 ^ 9] 0 (675 / 10 ^ 9) False)
     = Inr (675 / 10 ^ 9)
   \<and> calc_chi_2_AC [1] (675 / 10 ^ 9) [675 / 10 ^ 9] 0 (675 / 10 ^ 9) = Inr (Some 0)
   \<and> calc_chi_2_AC [1] 0 [675 / 10 ^ 9] 0 (675 / 10 ^ 9) = Inr (Some 0)"
proof -
  have r: "snd (find_delay_AC [1] [675 / 10 ^ 9, 0] [675 / 10 ^ 9] 0 (675 / 10 ^ 9) False)
             = Inr (675 / 10 ^ 9)"
    using calc_chi_2_one_channel [of 1 "675 / 10 ^ 9"] calc_chi_2_one_channel [of 1 0]
    by (simp add: find_delay_AC_def chi_less_def return_delay_min_def)
  from find_delay_AC_first_minimum [OF r] r
    calc_chi_2_one_channel [of 1 "675 / 10 ^ 9"] calc_chi_2_one_channel [of 1 0]
  show ?thesis by simp
qed

text \<open>
  C9. \<^verbatim>\<open>find_delay_AC\<close> gives the same outcome (the same delay, or the same exception)
  with \<^verbatim>\<open>plot=True\<close> and with \<^verbatim>\<open>plot=False\<close>. Without plotting nothing is plotted; with
  plotting, a call that returns a delay has plotted the chi-squared of every trial delay
  against the trial delays, once.
\<close>

theorem find_delay_AC_plot_irrelevant:
  "snd (find_delay_AC gamma_r trial_delays wavelengths len lam_0 True)
     = snd (find_delay_AC gamma_r trial_delays wavelengths len lam_0 False)
   \<and> fst (find_delay_AC gamma_r trial_delays wavelengths len lam_0 False) = []
   \<and> (\<forall>d. snd (find_delay_AC gamma_r trial_delays wavelengths len lam_0 True) = Inr d
        \<longrightarrow> fst (find_delay_AC gamma_r trial_delays wavelengths len lam_0 True)
            = [(trial_delays,
                map (\<lambda>t. projr (calc_chi_2_AC gamma_r t wavelengths len lam_0)) trial_delays)])"
  by (auto simp: find_delay_AC_def scan_AC_plot_eq Let_def split: sum.splits prod.splits)


theorem find_delay_AC_plot_irrelevant_witness:
  "snd (find_delay_AC [1] [0] [675 / 10 ^ 9] 0 (675 / 10 ^ 9) True) = Inr 0
   \<and> snd (find_delay_AC [1] [0] [675 / 10 ^ 9] 0 (675 / 10 ^ 9) False) = Inr 0
   \<and> fst (find_delay_AC [1] [0] [675 / 10 ^ 9] 0 (675 / 10 ^ 9) True) = [([0], [Some 0])]"
proof -
  have r: "snd (find_delay_AC [1] [0] [675 / 10 ^ 9] 0 (675 / 10 ^ 9) False) = Inr 0"
    using calc_chi_2_one_channel [of 1 0]
    by (simp add: find_delay_AC_def chi_less_def return_delay_min_def)
  from find_delay_AC_plot_irrelevant [of "[1]" "[0]" "[675 / 10 ^ 9]" 0 "675 / 10 ^ 9"] r
    calc_chi_2_one_channel [of 1 0]
  show ?thesis by simp
qed

text \<open>
  C1 fails for \<^verbatim>\<open>find_delay_AC\<close>: with one channel at 675e-9, no extra glass, the single
  trial delay 0 and the coherence 1e6, chi-squared is \<open>(1 - 10\<^sup>6)\<^sup>2\<close>, which is not below
  the initial \<^verbatim>\<open>chi_2_min = 1e10\<close>; \<^verbatim>\<open>delay_min\<close> is never assigned and the \<^verbatim>\<open>return\<close>
  raises \<^verbatim>\<open>UnboundLocalError\<close>.
\<close>

theorem find_delay_AC_unbound_delay_min:
  "find_delay_AC [10 ^ 6] [0] [675 / 10 ^ 9] 0 (675 / 10 ^ 9) False = ([], Inl UnboundLocalError)"
  using calc_chi_2_one_channel [of "10 ^ 6" 0]
  by (simp add: find_delay_AC_def chi_less_def return_delay_min_def)


section \<open>Combiner simulators\<close>

lemma draw_poisson_length: "draw_poisson R ls g = (ks, g') \<Longrightarrow> length ks = length ls"
  by (induction ls arbitrary: g ks g') (auto split: prod.splits)

lemma np_random_poisson_length:
  assumes "np_random_poisson R lam g = Inr (shot_noise, g')"
  shows "length shot_noise = length lam"
proof -
  from assms obtain ls where ls: "those lam = Some ls" "draw_poisson R ls g = (shot_noise, g')"
    by (auto simp: np_random_poisson_def split: option.splits if_splits)
  from those_SomeD [OF ls(1)] have "length lam = length ls" by simp
  with draw_poisson_length [OF ls(2)] show ?thesis by simp
qed

lemma output_loop_three:
  assumes "output_loop R model [o1, o2, o3] g = Inr (rows, g')"
  shows "\<exists>r1 g1 r2 g2 r3.
           noisy_output R (model o1) g = Inr (r1, g1)
           \<and> noisy_output R (model o2) g1 = Inr (r2, g2)
           \<and> noisy_output R (model o3) g2 = Inr (r3, g')
           \<and> rows = [r1, r2, r3]"
  using assms by (auto split: sum.splits)

lemma np_round_of_nat: "np_round (real n) = real n"
  by (simp add: np_round_def Let_def)

lemma const_rng_sel:
  "poisson (const_rng k r u) l g = (k, g)"
  "normal (const_rng k r u) sc g = (r, g)"
  "random_sample (const_rng k r u) g = (u, g)"
  by (simp_all add: const_rng_def)

lemma noisy_output_const:
  assumes "\<forall>l \<in> set ls. 0 \<le> l"
  shows "noisy_output (const_rng k 0 u) (map Some ls) g = Inr (map (\<lambda>l. real k) ls, g)"
proof -
  have d: "draw_poisson (const_rng k 0 u) ls x = (map (\<lambda>l. k) ls, x)" for x
    by (induction ls) (simp_all add: const_rng_sel)
  have t: "those (map Some ls) = Some ls" by (induction ls) auto
  from assms have "\<not> (\<exists>l \<in> set ls. l < 0)" by auto
  then show ?thesis
    by (simp add: noisy_output_def np_random_poisson_def t d add_read_noise_def const_rng_sel
                  np_round_of_nat comp_def)
qed

lemma tricoupler_fluxes_const:
  "tricoupler_fluxes (const_rng 2 0 0) () 0 0 [1] 1 (0, 0, 0) = Inr ([[2], [2], [2]], ())"
proof -
  have f: "fringe_flux 0 1 1 0 0 0 0 off = Some 0" for off
    by (simp add: fringe_flux_def)
  have n: "noisy_output (const_rng 2 0 0) [Some 0] () = Inr ([2], ())"
    using noisy_output_const [of "[0]" 2 0 "()"] by simp
  show ?thesis by (simp add: tricoupler_fluxes_def f n)
qed

lemma cal_coherence_const:
  "cal_coherence (const_rng 2 0 0) () 0 0 [1] 1 (0, 0, 0) = Inr ([Some 0], ())"
  by (simp add: cal_coherence_def tricoupler_fluxes_const combine_outputs_def)

lemma add_read_noise_eq:
  "add_read_noise R S p = (map (\<lambda>s. real s + fst (normal R 1.6 p)) S, snd (normal R 1.6 p))"
  by (simp add: add_read_noise_def split: prod.splits)

lemma noisy_output_draws:
  assumes "noisy_output R flux g = Inr (row, g')"
  shows "\<exists>S p. np_random_poisson R flux g = Inr (S, p) \<and> length S = length flux
           \<and> row = map np_round (fst (add_read_noise R S p))
           \<and> g' = snd (add_read_noise R S p)"
proof -
  from assms obtain S p where d: "np_random_poisson R flux g = Inr (S, p)"
    by (auto simp: noisy_output_def split: sum.splits)
  with assms have "row = map np_round (fst (add_read_noise R S p))"
    "g' = snd (add_read_noise R S p)"
    by (auto simp: noisy_output_def split: prod.splits)
  with d np_random_poisson_length [OF d] show ?thesis by blast
qed

lemma output_loop_two:
  assumes "output_loop R model [o1, o2] g = Inr (rows, g')"
  shows "\<exists>r1 g1 r2.
           noisy_output R (model o1) g = Inr (r1, g1)
           \<and> noisy_output R (model o2) g1 = Inr (r2, g')
           \<and> rows = [r1, r2]"
  using assms by (auto split: sum.splits)

lemma counter_rng_sel:
  "poisson (counter_rng r) l g = (g, g + 1)"
  "normal (counter_rng r) sc g = (r, g + 1)"
  "random_sample (counter_rng r) g = (0, g + 1)"
  by (simp_all add: counter_rng_def)

lemma np_round_numeral: "np_round (numeral n) = numeral n"
  using np_round_of_nat [of "numeral n"] by simp

lemma noisy_output_counter:
  "noisy_output (counter_rng 2) [Some 0, Some 0] g
     = Inr ([np_round (real g + 2), np_round (real (g + 1) + 2)], g + 3)"
  by (simp add: noisy_output_def np_random_poisson_def add_read_noise_def counter_rng_sel
                numeral_3_eq_3 add.commute)

lemma tricoupler_fluxes_counter:
  "tricoupler_fluxes (counter_rng 2) 3 0 0 [1, 2] 1 (0, 0, 0)
     = Inr ([[5, 6], [8, 9], [11, 12]], 12)"
proof -
  have f: "fringe_flux 0 1 1 0 0 0 0 off = Some 0" "fringe_flux 0 2 1 0 0 0 0 off = Some 0" for off
    by (simp_all add: fringe_flux_def)
  show ?thesis
    by (simp add: tricoupler_fluxes_def f noisy_output_counter np_round_numeral)
qed

lemma cal_AC_output_counter:
  "cal_AC_output (counter_rng 2) 3 0 0 [675 / 10 ^ 9, 700 / 10 ^ 9] 1 0 (675 / 10 ^ 9) (0, 0, 0)
     = Inr ([[5, 6], [8, 9]], 9)"
proof -
  have p: "phaseshift_glass (675 / 10 ^ 9) 0 (675 / 10 ^ 9) = Some 0"
    "phaseshift_glass (700 / 10 ^ 9) 0 (675 / 10 ^ 9) = Some 0"
    by (rule phaseshift_zero_length; simp add: C1_def power2_eq_square)+
  have f: "fringe_flux 0 (675 / 10 ^ 9) 1 0 0 0 0 off = Some 0"
    "fringe_flux 0 (700 / 10 ^ 9) 1 0 0 0 0 off = Some 0" for off
    by (simp_all add: fringe_flux_def)
  show ?thesis
    using p f by (simp add: cal_AC_output_def noisy_output_counter np_round_numeral)
qed

text \<open>
  C10. In both simulators the read noise of an output is one Gaussian draw of scale 1.6,
  made after the Poisson draws of that output and added to every wavelength channel
  before rounding. In detail: \<^verbatim>\<open>shot_noise + np.random.normal(scale=1.6)\<close> adds the
  value of a single call of the sampler to every entry and advances the generator by
  that one call, so before rounding two channels of an output differ by the difference
  of their shot-noise draws. The tricoupler returns exactly three rows and the AC
  coupler exactly two; each row is the rounding of such a sum, over the Poisson draws
  made for that output's noiseless fluxes, from the generator state that the previous
  output left.
\<close>

theorem read_noise_one_draw_per_output:
  "(\<forall>S p. add_read_noise R S p
             = (map (\<lambda>s. real s + fst (normal R 1.6 p)) S, snd (normal R 1.6 p))
          \<and> (\<forall>j < length S. \<forall>k < length S.
                fst (add_read_noise R S p) ! j - fst (add_read_noise R S p) ! k
                  = real (S ! j) - real (S ! k)))
   \<and> (tricoupler_fluxes R g delay_bad delay_fix wavelengths bandpass (F_0, vis, coh_phase)
         = Inr (fluxes, g') \<longrightarrow>
       (\<exists>S_A a S_B b S_C c.
          np_random_poisson R
            (map (\<lambda>lam. fringe_flux (delay_bad - delay_fix) lam bandpass F_0 vis coh_phase 0 0)
               wavelengths) g = Inr (S_A, a)
          \<and> np_random_poisson R
            (map (\<lambda>lam. fringe_flux (delay_bad - delay_fix) lam bandpass F_0 vis coh_phase 0
                         (2 * pi / 3)) wavelengths)
            (snd (add_read_noise R S_A a)) = Inr (S_B, b)
          \<and> np_random_poisson R
            (map (\<lambda>lam. fringe_flux (delay_bad - delay_fix) lam bandpass F_0 vis coh_phase 0
                         (4 * pi / 3)) wavelengths)
            (snd (add_read_noise R S_B b)) = Inr (S_C, c)
          \<and> g' = snd (add_read_noise R S_C c)
          \<and> fluxes = [map np_round (fst (add_read_noise R S_A a)),
                       map np_round (fst (add_read_noise R S_B b)),
                       map np_round (fst (add_read_noise R S_C c))]
          \<and> length S_A = length wavelengths \<and> length S_B = length wavelengths
          \<and> length S_C = length wavelengths))
   \<and> (cal_AC_output R g delay_bad delay_fix wavelengths bandpass len lam_0
         (F_0, vis, coh_phase) = Inr (fluxes, g') \<longrightarrow>
       (\<exists>S_A a S_C c.
          np_random_poisson R
            (map (\<lambda>lam. case phaseshift_glass lam len lam_0 of
                          None \<Rightarrow> None
                        | Some disp_phase \<Rightarrow>
                            fringe_flux (delay_bad - delay_fix) lam bandpass F_0 vis coh_phase
                              disp_phase 0) wavelengths) g = Inr (S_A, a)
          \<and> np_random_poisson R
            (map (\<lambda>lam. case phaseshift_glass lam len lam_0 of
                          None \<Rightarrow> None
                        | Some disp_phase \<Rightarrow>
                            fringe_flux (delay_bad - delay_fix) lam bandpass F_0 vis coh_phase
                              disp_phase pi) wavelengths)
            (snd (add_read_noise R S_A a)) = Inr (S_C, c)
          \<and> g' = snd (add_read_noise R S_C c)
          \<and> fluxes = [map np_round (fst (add_read_noise R S_A a)),
                       map np_round (fst (add_read_noise R S_C c))]
          \<and> length S_A = length wavelengths \<and> length S_C = length wavelengths))"
proof (intro conjI allI impI)
  fix S p
  show "add_read_noise R S p
          = (map (\<lambda>s. real s + fst (normal R 1.6 p)) S, snd (normal R 1.6 p))"
    by (rule add_read_noise_eq)
  fix j k assume "j < length S" "k < length S"
  then show "fst (add_read_noise R S p) ! j - fst (add_read_noise R S p) ! k
               = real (S ! j) - real (S ! k)"
    by (simp add: add_read_noise_eq)
next
  let ?model = "\<lambda>output_offset.
      map (\<lambda>lam. fringe_flux (delay_bad - delay_fix) lam bandpass F_0 vis coh_phase 0 output_offset)
        wavelengths"
  assume "tricoupler_fluxes R g delay_bad delay_fix wavelengths bandpass (F_0, vis, coh_phase)
            = Inr (fluxes, g')"
  then have "output_loop R ?model [0, 2 * pi / 3, 4 * pi / 3] g = Inr (fluxes, g')"
    by (simp add: tricoupler_fluxes_def Let_def)
  from output_loop_three [OF this] obtain r1 g1 r2 g2 r3 where
    rows: "noisy_output R (?model 0) g = Inr (r1, g1)"
      "noisy_output R (?model (2 * pi / 3)) g1 = Inr (r2, g2)"
      "noisy_output R (?model (4 * pi / 3)) g2 = Inr (r3, g')"
      "fluxes = [r1, r2, r3]"
    by blast
  from noisy_output_draws [OF rows(1)] obtain S_A a where
    A: "np_random_poisson R (?model 0) g = Inr (S_A, a)" "length S_A = length wavelengths"
       "r1 = map np_round (fst (add_read_noise R S_A a))" "g1 = snd (add_read_noise R S_A a)"
    by auto
  from noisy_output_draws [OF rows(2)] obtain S_B b where
    B: "np_random_poisson R (?model (2 * pi / 3)) g1 = Inr (S_B, b)"
       "length S_B = length wavelengths"
       "r2 = map np_round (fst (add_read_noise R S_B b))" "g2 = snd (add_read_noise R S_B b)"
    by auto
  from noisy_output_draws [OF rows(3)] obtain S_C c where
    C: "np_random_poisson R (?model (4 * pi / 3)) g2 = Inr (S_C, c)"
       "length S_C = length wavelengths"
       "r3 = map np_round (fst (add_read_noise R S_C c))" "g' = snd (add_read_noise R S_C c)"
    by auto
  from A B C rows(4)
  show "\<exists>S_A a S_B b S_C c.
          np_random_poisson R (?model 0) g = Inr (S_A, a)
          \<and> np_random_poisson R (?model (2 * pi / 3)) (snd (add_read_noise R S_A a)) = Inr (S_B, b)
          \<and> np_random_poisson R (?model (4 * pi / 3)) (snd (add_read_noise R S_B b)) = Inr (S_C, c)
          \<and> g' = snd (add_read_noise R S_C c)
          \<and> fluxes = [map np_round (fst (add_read_noise R S_A a)),
                       map np_round (fst (add_read_noise R S_B b)),
                       map np_round (fst (add_read_noise R S_C c))]
          \<and> length S_A = length wavelengths \<and> length S_B = length wavelengths
          \<and> length S_C = length wavelengths"
    by blast
next
  let ?model = "\<lambda>output_offset.
      map (\<lambda>lam. case phaseshift_glass lam len lam_0 of
                    None \<Rightarrow> None
                  | Some disp_phase \<Rightarrow>
                      fringe_flux (delay_bad - delay_fix) lam bandpass F_0 vis coh_phase
                        disp_phase output_offset) wavelengths"
  assume "cal_AC_output R g delay_bad delay_fix wavelengths bandpass len lam_0
            (F_0, vis, coh_phase) = Inr (fluxes, g')"
  then have "output_loop R ?model [0, pi] g = Inr (fluxes, g')"
    by (simp add: cal_AC_output_def Let_def)
  from output_loop_two [OF this] obtain r1 g1 r2 where
    rows: "noisy_output R (?model 0) g = Inr (r1, g1)"
      "noisy_output R (?model pi) g1 = Inr (r2, g')"
      "fluxes = [r1, r2]"
    by blast
  from noisy_output_draws [OF rows(1)] obtain S_A a where
    A: "np_random_poisson R (?model 0) g = Inr (S_A, a)" "length S_A = length wavelengths"
       "r1 = map np_round (fst (add_read_noise R S_A a))" "g1 = snd (add_read_noise R S_A a)"
    by auto
  from noisy_output_draws [OF rows(2)] obtain S_C c where
    C: "np_random_poisson R (?model pi) g1 = Inr (S_C, c)"
       "length S_C = length wavelengths"
       "r2 = map np_round (fst (add_read_noise R S_C c))" "g' = snd (add_read_noise R S_C c)"
    by auto
  from A C rows(3)
  show "\<exists>S_A a S_C c.
          np_random_poisson R (?model 0) g = Inr (S_A, a)
          \<and> np_random_poisson R (?model pi) (snd (add_read_noise R S_A a)) = Inr (S_C, c)
          \<and> g' = snd (add_read_noise R S_C c)
          \<and> fluxes = [map np_round (fst (add_read_noise R S_A a)),
                       map np_round (fst (add_read_noise R S_C c))]
          \<and> length S_A = length wavelengths \<and> length S_C = length wavelengths"
    by blast
qed

theorem read_noise_one_draw_per_output_witness:
  "tricoupler_fluxes (counter_rng 2) 3 0 0 [1, 2] 1 (0, 0, 0)
     = Inr ([[5, 6], [8, 9], [11, 12]], 12)
   \<and> (\<exists>S_A a S_B b S_C c.
         [[5, 6], [8, 9], [11, 12]]
           = [map np_round (fst (add_read_noise (counter_rng 2) S_A a)),
              map np_round (fst (add_read_noise (counter_rng 2) S_B b)),
              map np_round (fst (add_read_noise (counter_rng 2) S_C c))]
         \<and> length S_A = length [1, 2 :: real])
   \<and> cal_AC_output (counter_rng 2) 3 0 0 [675 / 10 ^ 9, 700 / 10 ^ 9] 1 0 (675 / 10 ^ 9) (0, 0, 0)
     = Inr ([[5, 6], [8, 9]], 9)
   \<and> (\<exists>S_A a S_C c.
         [[5, 6], [8, 9]]
           = [map np_round (fst (add_read_noise (counter_rng 2) S_A a)),
              map np_round (fst (add_read_noise (counter_rng 2) S_C c))]
         \<and> length S_A = length [675 / 10 ^ 9, 700 / 10 ^ 9 :: real])
   \<and> add_read_noise (counter_rng 2) [3, 4] 5 = ([5, 6], 6)
   \<and> fst (add_read_noise (counter_rng 2) [3, 4] 5) ! 1
       - fst (add_read_noise (counter_rng 2) [3, 4] 5) ! 0 = real 4 - real 3"
proof -
  note t = read_noise_one_draw_per_output [of "counter_rng 2" 3 0 0 "[1, 2]" 1 0 0 0
      "[[5, 6], [8, 9], [11, 12]]" 12 0 0]
  note u = read_noise_one_draw_per_output [of "counter_rng 2" 3 0 0
      "[675 / 10 ^ 9, 700 / 10 ^ 9]" 1 0 0 0 "[[5, 6], [8, 9]]" 9 0 "675 / 10 ^ 9"]
  note t1 = t [THEN conjunct2, THEN conjunct1, THEN mp, OF tricoupler_fluxes_counter]
  note u2 = u [THEN conjunct2, THEN conjunct2, THEN mp, OF cal_AC_output_counter]
  note gen = t [THEN conjunct1, THEN spec, THEN spec, of "[3, 4]" 5]
  from t1 obtain S_A a S_B b S_C c where
    "[[5, 6], [8, 9], [11, 12]]
           = [map np_round (fst (add_read_noise (counter_rng 2) S_A a)),
              map np_round (fst (add_read_noise (counter_rng 2) S_B b)),
              map np_round (fst (add_read_noise (counter_rng 2) S_C c))]"
    "length S_A = length [1, 2 :: real]"
    by (elim exE conjE)
  then have e1: "\<exists>S_A a S_B b S_C c.
         [[5, 6], [8, 9], [11, 12]]
           = [map np_round (fst (add_read_noise (counter_rng 2) S_A a)),
              map np_round (fst (add_read_noise (counter_rng 2) S_B b)),
              map np_round (fst (add_read_noise (counter_rng 2) S_C c))]
         \<and> length S_A = length [1, 2 :: real]"
    by (intro exI conjI)
  from u2 obtain S_A a S_C c where
    "[[5, 6], [8, 9]]
           = [map np_round (fst (add_read_noise (counter_rng 2) S_A a)),
              map np_round (fst (add_read_noise (counter_rng 2) S_C c))]"
    "length S_A = length [675 / 10 ^ 9, 700 / 10 ^ 9 :: real]"
    by (elim exE conjE)
  then have e2: "\<exists>S_A a S_C c.
         [[5, 6], [8, 9]]
           = [map np_round (fst (add_read_noise (counter_rng 2) S_A a)),
              map np_round (fst (add_read_noise (counter_rng 2) S_C c))]
         \<and> length S_A = length [675 / 10 ^ 9, 700 / 10 ^ 9 :: real]"
    by (intro exI conjI)
  from gen [THEN conjunct1]
  have a: "add_read_noise (counter_rng 2) [3, 4] 5 = ([5, 6], 6)"
    by (simp add: counter_rng_sel)
  have "fst (add_read_noise (counter_rng 2) [3, 4] 5) ! 1
       - fst (add_read_noise (counter_rng 2) [3, 4] 5) ! 0 = real ([3, 4] ! 1) - real ([3, 4] ! 0)"
    by (rule gen [THEN conjunct2, rule_format]) simp_all
  then have d: "fst (add_read_noise (counter_rng 2) [3, 4] 5) ! 1
       - fst (add_read_noise (counter_rng 2) [3, 4] 5) ! 0 = real 4 - real 3"
    by simp
  show ?thesis
    by (intro conjI) (rule tricoupler_fluxes_counter e1 cal_AC_output_counter e2 a d)+
qed

text \<open>
  C2. When \<^verbatim>\<open>cal_coherence\<close> returns, its result has one entry per wavelength channel,
  computed from three rows \<open>F_A\<close>, \<open>F_B\<close>, \<open>F_C\<close> of noisy fluxes. The rows are simulated in
  this order at the output offsets 0, \<open>2\<pi>/3\<close>, \<open>4\<pi>/3\<close>, all at the effective delay
  \<open>delay_bad - delay_fix\<close> and without dispersion phase. The entry of channel \<open>k\<close> is
  \<open>(3 F_A + i \<surd>3 (F_C - F_B)) / (F_A + F_B + F_C) - 1\<close>, non-finite when the three fluxes
  sum to 0.
\<close>

theorem cal_coherence_formula:
  assumes "cal_coherence R g delay_bad delay_fix wavelengths bandpass (F_0, vis, coh_phase)
             = Inr (gamma, g')"
  shows "\<exists>F_A g_A F_B g_B F_C.
           noisy_output R
             (map (\<lambda>lam. fringe_flux (delay_bad - delay_fix) lam bandpass F_0 vis coh_phase 0 0)
                wavelengths) g = Inr (F_A, g_A)
           \<and> noisy_output R
             (map (\<lambda>lam. fringe_flux (delay_bad - delay_fix) lam bandpass F_0 vis coh_phase 0
                          (2 * pi / 3)) wavelengths) g_A = Inr (F_B, g_B)
           \<and> noisy_output R
             (map (\<lambda>lam. fringe_flux (delay_bad - delay_fix) lam bandpass F_0 vis coh_phase 0
                          (4 * pi / 3)) wavelengths) g_B = Inr (F_C, g')
           \<and> length gamma = length wavelengths
           \<and> (\<forall>k < length wavelengths.
                 gamma ! k =
                   (if F_A ! k + F_B ! k + F_C ! k = 0 then None
                    else Some ((3 * complex_of_real (F_A ! k)
                                + \<i> * complex_of_real (sqrt 3)
                                  * complex_of_real (F_C ! k - F_B ! k))
                               / complex_of_real (F_A ! k + F_B ! k + F_C ! k) - 1)))"
proof -
  let ?model = "\<lambda>output_offset.
      map (\<lambda>lam. fringe_flux (delay_bad - delay_fix) lam bandpass F_0 vis coh_phase 0 output_offset)
        wavelengths"
  from assms obtain fluxes where
    fl: "output_loop R ?model [0, 2 * pi / 3, 2 * pi / 3 * 2] g = Inr (fluxes, g')"
    and gam: "gamma = combine_outputs fluxes (length wavelengths)"
    by (auto simp: cal_coherence_def tricoupler_fluxes_def Let_def split: sum.splits)
  from output_loop_three [OF fl] obtain F_A g_A F_B g_B F_C where
    rows: "noisy_output R (?model 0) g = Inr (F_A, g_A)"
      "noisy_output R (?model (2 * pi / 3)) g_A = Inr (F_B, g_B)"
      "noisy_output R (?model (2 * pi / 3 * 2)) g_B = Inr (F_C, g')"
      "fluxes = [F_A, F_B, F_C]"
    by blast
  have four: "2 * pi / 3 * 2 = 4 * pi / 3" by simp
  have "length gamma = length wavelengths"
    by (simp add: gam combine_outputs_def)
  moreover have "\<forall>k < length wavelengths.
                 gamma ! k =
                   (if F_A ! k + F_B ! k + F_C ! k = 0 then None
                    else Some ((3 * complex_of_real (F_A ! k)
                                + \<i> * complex_of_real (sqrt 3)
                                  * complex_of_real (F_C ! k - F_B ! k))
                               / complex_of_real (F_A ! k + F_B ! k + F_C ! k) - 1))"
    by (simp add: gam combine_outputs_def rows(4) Let_def mult.commute)
  ultimately show ?thesis using rows(1,2,3) unfolding four by blast
qed

theorem cal_coherence_formula_witness:
  "cal_coherence (const_rng 2 0 0) () 0 0 [1] 1 (0, 0, 0) = Inr ([Some 0], ())
   \<and> (\<exists>F_A F_B F_C. [Some 0] ! 0 =
         (if F_A + F_B + F_C = 0 then None
          else Some ((3 * complex_of_real F_A + \<i> * complex_of_real (sqrt 3) * complex_of_real (F_C - F_B))
                      / complex_of_real (F_A + F_B + F_C) - 1)))"
proof -
  from cal_coherence_formula [OF cal_coherence_const] obtain F_A F_B F_C :: "real list" where
    "\<forall>k < length [1::real]. [Some 0] ! k =
                   (if F_A ! k + F_B ! k + F_C ! k = 0 then None
                    else Some ((3 * complex_of_real (F_A ! k)
                                + \<i> * complex_of_real (sqrt 3)
                                  * complex_of_real (F_C ! k - F_B ! k))
                               / complex_of_real (F_A ! k + F_B ! k + F_C ! k) - 1))"
    by blast
  then have "[Some 0] ! 0 =
                   (if F_A ! 0 + F_B ! 0 + F_C ! 0 = 0 then None
                    else Some ((3 * complex_of_real (F_A ! 0)
                                + \<i> * complex_of_real (sqrt 3)
                                  * complex_of_real (F_C ! 0 - F_B ! 0))
                               / complex_of_real (F_A ! 0 + F_B ! 0 + F_C ! 0) - 1))"
    by simp
  then show ?thesis using cal_coherence_const by blast
qed


section \<open>Tracking loop\<close>

lemma track_frame_step:
  assumes "track_frame R cfg (s, g) = Inr (s', g')"
  shows "frame_num s' = frame_num s + 1"
    and "frame_num s < cfg_num_group_delay_frames cfg \<Longrightarrow>
           \<exists>ave. those (ave_delay_envelope s') = Some ave
                 \<and> find_delay ave (cfg_trial_delays cfg) = Inr (fix_delay s')"
    and "\<not> frame_num s < cfg_num_group_delay_frames cfg \<Longrightarrow>
           fix_delay s' = fix_delay s \<and> vis_array s' = vis_array s"
  using assms
  by (auto simp: track_frame_def Let_def
           split: prod.splits sum.splits option.splits if_splits)

lemma track_loop_frame_num:
  "track_loop R cfg k (s, g) = Inr (s', g') \<Longrightarrow> frame_num s' = frame_num s + int k"
proof (induction k arbitrary: s g)
  case 0
  then show ?case by simp
next
  case (Suc k)
  from Suc.prems obtain s1 g1 where f: "track_frame R cfg (s, g) = Inr (s1, g1)"
    and l: "track_loop R cfg k (s1, g1) = Inr (s', g')"
    by (auto split: sum.splits)
  from track_frame_step(1) [OF f] Suc.IH [OF l] show ?case by simp
qed

lemma track_loop_fix_delay:
  "cfg_num_group_delay_frames cfg \<le> frame_num s \<Longrightarrow> track_loop R cfg m (s, g) = Inr (s', g')
     \<Longrightarrow> fix_delay s' = fix_delay s"
proof (induction m arbitrary: s g)
  case 0
  then show ?case by simp
next
  case (Suc m)
  from Suc.prems obtain s1 g1 where f: "track_frame R cfg (s, g) = Inr (s1, g1)"
    and l: "track_loop R cfg m (s1, g1) = Inr (s', g')"
    by (auto split: sum.splits)
  from Suc.prems(1) have nl: "\<not> frame_num s < cfg_num_group_delay_frames cfg" by simp
  from track_frame_step(1) [OF f] Suc.prems(1)
  have "cfg_num_group_delay_frames cfg \<le> frame_num s1" by simp
  from Suc.IH [OF this l] track_frame_step(3) [OF f nl] show ?case by simp
qed

lemma cal_coherence_small:
  "cal_coherence (const_rng 2 0 0) () 0 0 [1] 0 (0, 0, 0) = Inr ([Some 0], ())"
proof -
  have f: "fringe_flux 0 1 0 0 0 0 0 off = Some 0" for off
    by (simp add: fringe_flux_def)
  have n: "noisy_output (const_rng 2 0 0) [Some 0] () = Inr ([2], ())"
    using noisy_output_const [of "[0]" 2 0 "()"] by simp
  show ?thesis
    by (simp add: cal_coherence_def tricoupler_fluxes_def f n combine_outputs_def)
qed

lemma envelope_small: "group_delay_envelope [Some 0] [5] [1] False = ([], Inr [Some 0])"
  by (simp add: group_delay_envelope_def find_white_fringe_def np_broadcast_def fmul_def
                np_sum_def)

lemma correct_gamma_small: "correct_gamma [Some 0] 5 0 [1] = Inr [Some 0]"
  by (simp add: correct_gamma_def np_broadcast_def fdiv_def fmul_def np_sinc_def)

lemma first_frame_small:
  "track_frame (const_rng 2 0 0) small_config (init_state small_config, ())
     = Inr (\<lparr>ave_delay_envelope = [Some 0], fix_delay = 5, vis_array = [Some 0], frame_num = 1\<rparr>, ())"
  by (simp add: track_frame_def small_config_def init_state_def const_rng_sel cal_coherence_small
                envelope_small np_broadcast_def mix_def find_delay_def np_argmax_def
                correct_gamma_small vis_estimate_def np_sum_def)

lemma second_frame_small:
  "track_frame (const_rng 2 0 0) small_config
       (\<lparr>ave_delay_envelope = [Some 0], fix_delay = 5, vis_array = [Some 0], frame_num = 1\<rparr>, ())
     = Inr (\<lparr>ave_delay_envelope = [Some 0], fix_delay = 5, vis_array = [Some 0], frame_num = 2\<rparr>, ())"
  by (simp add: track_frame_def small_config_def const_rng_sel cal_coherence_small
                envelope_small np_broadcast_def mix_def)

text \<open>
  C8. Take frame number \<open>k\<close> of a run (counting from 0): \<open>k\<close> frames have completed from
  the initial state, and the next pass through the loop body completes. Then the frame
  counter is \<open>k\<close> before this frame and \<open>k + 1\<close> after it: it advances by one in every frame
  and is never reset. If \<open>k\<close> is below \<^verbatim>\<open>num_group_delay_frames\<close>, \<^verbatim>\<open>fix_delay\<close> after the
  frame is \<^verbatim>\<open>find_delay\<close> of the updated running-average envelope. If \<open>k\<close> has reached that
  bound, the frame leaves \<^verbatim>\<open>fix_delay\<close> unchanged, and so does every later frame of the
  run.
\<close>

theorem frame_counter_never_reset:
  assumes "track_loop R cfg k (init_state cfg, g) = Inr (s, g1)"
    and "track_frame R cfg (s, g1) = Inr (s', g2)"
  shows "frame_num s = int k \<and> frame_num s' = int k + 1
       \<and> (int k < cfg_num_group_delay_frames cfg \<longrightarrow>
            (\<exists>ave. those (ave_delay_envelope s') = Some ave
                  \<and> find_delay ave (cfg_trial_delays cfg) = Inr (fix_delay s')))
       \<and> (cfg_num_group_delay_frames cfg \<le> int k \<longrightarrow>
            fix_delay s' = fix_delay s
            \<and> (\<forall>m s'' g''. track_loop R cfg m (s', g2) = Inr (s'', g'')
                   \<longrightarrow> fix_delay s'' = fix_delay s))"
proof -
  from track_loop_frame_num [OF assms(1)] have k: "frame_num s = int k"
    by (simp add: init_state_def)
  from track_frame_step(1) [OF assms(2)] k have k': "frame_num s' = int k + 1" by simp
  have a: "\<exists>ave. those (ave_delay_envelope s') = Some ave
                  \<and> find_delay ave (cfg_trial_delays cfg) = Inr (fix_delay s')"
    if "int k < cfg_num_group_delay_frames cfg"
    using track_frame_step(2) [OF assms(2)] that k by simp
  have b: "fix_delay s' = fix_delay s
            \<and> (\<forall>m s'' g''. track_loop R cfg m (s', g2) = Inr (s'', g'')
                   \<longrightarrow> fix_delay s'' = fix_delay s)"
    if n: "cfg_num_group_delay_frames cfg \<le> int k"
  proof -
    from n k have "\<not> frame_num s < cfg_num_group_delay_frames cfg" by simp
    from track_frame_step(3) [OF assms(2) this] have e: "fix_delay s' = fix_delay s" by simp
    from n k' have "cfg_num_group_delay_frames cfg \<le> frame_num s'" by simp
    from track_loop_fix_delay [OF this] e show ?thesis by auto
  qed
  from k k' a b show ?thesis by blast
qed


theorem frame_counter_never_reset_witness:
  "track_loop (const_rng 2 0 0) small_config 1 (init_state small_config, ())
     = Inr (\<lparr>ave_delay_envelope = [Some 0], fix_delay = 5, vis_array = [Some 0], frame_num = 1\<rparr>, ())
   \<and> track_frame (const_rng 2 0 0) small_config
       (\<lparr>ave_delay_envelope = [Some 0], fix_delay = 5, vis_array = [Some 0], frame_num = 1\<rparr>, ())
     = Inr (\<lparr>ave_delay_envelope = [Some 0], fix_delay = 5, vis_array = [Some 0], frame_num = 2\<rparr>, ())
   \<and> cfg_num_group_delay_frames small_config \<le> int 1
   \<and> fix_delay \<lparr>ave_delay_envelope = [Some 0], fix_delay = 5, vis_array = [Some 0],
                 frame_num = 2\<rparr>
     = fix_delay \<lparr>ave_delay_envelope = [Some 0], fix_delay = 5, vis_array = [Some 0],
                   frame_num = 1\<rparr>
   \<and> fix_delay (init_state small_config) = 0"
proof -
  have run: "track_loop (const_rng 2 0 0) small_config 1 (init_state small_config, ())
     = Inr (\<lparr>ave_delay_envelope = [Some 0], fix_delay = 5, vis_array = [Some 0], frame_num = 1\<rparr>, ())"
    using first_frame_small by simp
  have n: "cfg_num_group_delay_frames small_config \<le> int 1"
    by (simp add: small_config_def)
  from frame_counter_never_reset [OF run second_frame_small] n run second_frame_small
  show ?thesis by (simp add: init_state_def)
qed

end
